theory Spec2Isabelle
  imports Main "HOL-Library.Multiset"
begin

section \<open>Values of the request body\<close>

text \<open>
  The handlers read \<^verbatim>\<open>await request.json()\<close> and destructure the result, so a body is
  any JSON value; \<open>Undefined\<close> is the value of a property that is absent. Numbers matter only
  through being zero or not (the \<^verbatim>\<open>!title\<close> test), so they are integers here.
\<close>

datatype jsval =
    Undefined
  | Null
  | Bool bool
  | Num int
  | Str string
  | Arr "jsval list"
  | Obj "(string \<times> jsval) list"

text \<open>
  Property lookup, used at the keys \<^verbatim>\<open>title\<close> and \<^verbatim>\<open>content\<close> only: a parsed object
  keeps the last occurrence of a repeated key, and no other JSON value has either property.
\<close>

fun get_prop :: "jsval \<Rightarrow> string \<Rightarrow> jsval" where
  "get_prop (Obj kvs) k = (case map_of (rev kvs) k of None \<Rightarrow> Undefined | Some v \<Rightarrow> v)"
| "get_prop _ k = Undefined"

text \<open>The values for which \<^verbatim>\<open>!v\<close> is true.\<close>

fun falsy :: "jsval \<Rightarrow> bool" where
  "falsy Undefined = True"
| "falsy Null = True"
| "falsy (Bool b) = (\<not> b)"
| "falsy (Num n) = (n = 0)"
| "falsy (Str s) = (s = [])"
| "falsy (Arr xs) = False"
| "falsy (Obj kvs) = False"

section \<open>The relational store\<close>

record user_row =
  u_id :: int
  u_name :: string

record post_row =
  p_id :: int
  p_title :: string
  p_content :: string
  p_created_at :: int
  p_updated_at :: "int option"
  p_user_id :: int

record comment_row =
  c_id :: int
  c_content :: string
  c_created_at :: int
  c_updated_at :: "int option"
  c_post_id :: int
  c_user_id :: int

text \<open>
  The three tables in row order, and the two generators of the server-assigned ids of
  \<^verbatim>\<open>forum_posts\<close> and \<^verbatim>\<open>comments\<close>.
\<close>

record store =
  users :: "user_row list"
  forum_posts :: "post_row list"
  comments :: "comment_row list"
  post_seq :: int
  comment_seq :: int

text \<open>
  Modelled from the spec: the schema of the three tables is not part of the sources. The spec
  gives the foreign keys \<^verbatim>\<open>forum_posts.user_id -> users.id\<close>,
  \<^verbatim>\<open>comments.post_id -> forum_posts.id\<close> and \<^verbatim>\<open>comments.user_id -> users.id\<close>; the
  referenced columns are keys, and a generated id is above every id already handed out.
\<close>

definition wf_store :: "store \<Rightarrow> bool" where
  "wf_store s \<longleftrightarrow>
     distinct (map u_id (users s)) \<and>
     distinct (map p_id (forum_posts s)) \<and>
     distinct (map c_id (comments s)) \<and>
     list_all (\<lambda>p. p_user_id p \<in> set (map u_id (users s))) (forum_posts s) \<and>
     list_all (\<lambda>c. c_post_id c \<in> set (map p_id (forum_posts s))) (comments s) \<and>
     list_all (\<lambda>c. c_user_id c \<in> set (map u_id (users s))) (comments s) \<and>
     list_all (\<lambda>p. p_id p < post_seq s) (forum_posts s) \<and>
     list_all (\<lambda>c. c_id c < comment_seq s) (comments s)"

text \<open>
  What the database driver and the store do with a query parameter is not in the sources
  either, so it is a parameter of the model: \<open>text_of\<close> renders a body value for a text
  column and is \<open>None\<close> where the store rejects the value (a text that holds the character
  U+0000, say); \<open>key_of\<close> casts the path segment \<^verbatim>\<open>id\<close> to the key type and is
  \<open>None\<close> where the store rejects the segment.
\<close>

record driver =
  text_of :: "jsval \<Rightarrow> string option"
  key_of :: "string \<Rightarrow> int option"

text \<open>One constructor for each SQL text of the sources, with the parameter array it is sent with.\<close>

datatype stmt =
    SelectPostOwner string
  | UpdatePost jsval jsval int string
  | DeleteCommentsOfPost string
  | DeletePost string
  | InsertComment string int jsval int
  | SelectCommentOwner string
  | UpdateComment jsval int string
  | DeleteComment string
  | SelectPosts
  | InsertPost int jsval jsval int

section \<open>Awaited computations\<close>

text \<open>
  An awaited call either returns or throws, it may change the store, and it sends statements
  to the pool. The store reached when an exception is thrown is kept: the handlers open no
  transaction.
\<close>

datatype exn = SyntaxError | TypeError | DbError

type_synonym 'a io = "store \<Rightarrow> (exn + 'a) \<times> store \<times> stmt list"

definition ret :: "'a \<Rightarrow> 'a io" where
  "ret x s = (Inr x, s, [])"

definition raise :: "exn \<Rightarrow> 'a io" where
  "raise e s = (Inl e, s, [])"

definition bind :: "'a io \<Rightarrow> ('a \<Rightarrow> 'b io) \<Rightarrow> 'b io" where
  "bind m f s =
     (case m s of
        (Inl e, s1, q1) \<Rightarrow> (Inl e, s1, q1)
      | (Inr x, s1, q1) \<Rightarrow> (case f x s1 of (r, s2, q2) \<Rightarrow> (r, s2, q1 @ q2)))"

section \<open>Responses\<close>

record author =
  a_id :: int
  a_name :: string

record listed_comment =
  lc_id :: int
  lc_content :: string
  lc_created_at :: int
  lc_user_id :: int
  lc_author :: "author option"

record listed_post =
  lp_id :: int
  lp_title :: string
  lp_content :: string
  lp_created_at :: int
  lp_user_id :: int
  lp_author :: author
  lp_comments :: "listed_comment list option"

datatype payload =
    Error string
  | Success
  | UpdatedPost int string string int "int option"
  | CreatedPost int string string int
  | UpdatedComment int string int "int option"
  | CreatedComment int string int
  | Listing "listed_post list"

record response =
  status :: nat
  body :: payload

definition json_response :: "payload \<Rightarrow> nat \<Rightarrow> response" where
  "json_response b st = \<lparr>status = st, body = b\<rparr>"

text \<open>The \<^verbatim>\<open>try { ... } catch (error) { return ... 500 }\<close> around every handler body.\<close>

definition try_catch :: "response io \<Rightarrow> response \<Rightarrow> store \<Rightarrow> response \<times> store \<times> stmt list" where
  "try_catch m r500 s =
     (case m s of
        (Inl e, s1, q1) \<Rightarrow> (r500, s1, q1)
      | (Inr r, s1, q1) \<Rightarrow> (r, s1, q1))"

definition resp_of :: "response \<times> store \<times> stmt list \<Rightarrow> response" where
  "resp_of out = fst out"

definition db_of :: "response \<times> store \<times> stmt list \<Rightarrow> store" where
  "db_of out = fst (snd out)"

definition issued :: "response \<times> store \<times> stmt list \<Rightarrow> stmt list" where
  "issued out = snd (snd out)"

text \<open>
  The request is its body: \<open>None\<close> when the body is not JSON, so that
  \<^verbatim>\<open>request.json()\<close> rejects. Destructuring \<^verbatim>\<open>const { title, content } = body\<close> throws
  on \<^verbatim>\<open>null\<close>.
\<close>

type_synonym request = "jsval option"

definition request_json :: "request \<Rightarrow> jsval io" where
  "request_json request = (case request of None \<Rightarrow> raise SyntaxError | Some v \<Rightarrow> ret v)"

definition destructure :: "jsval \<Rightarrow> string \<Rightarrow> jsval io" where
  "destructure b k =
     (if b = Null \<or> b = Undefined then raise TypeError else ret (get_prop b k))"

record actor =
  actor_id :: int
  role :: string

section \<open>Statements\<close>

text \<open>
  Each function is one \<^verbatim>\<open>pool.query\<close> call of the sources: it records the statement and
  gives the rows the store returns. A statement throws when the store rejects the path
  segment as a key or a value as a text, or when the row to insert violates a constraint of
  the schema; it then leaves the tables as they were. Failures of the connection itself are
  outside the model.
\<close>

text \<open>\<^verbatim>\<open>SELECT user_id FROM forum_posts WHERE id = $1\<close> with \<^verbatim>\<open>[id]\<close>.\<close>

definition select_post_owner :: "driver \<Rightarrow> string \<Rightarrow> int list io" where
  "select_post_owner drv ident s =
     (case key_of drv ident of
        None \<Rightarrow> (Inl DbError, s, [SelectPostOwner ident])
      | Some k \<Rightarrow>
          (Inr (map p_user_id (filter (\<lambda>p. p_id p = k) (forum_posts s))), s,
           [SelectPostOwner ident]))"

text \<open>
  \<^verbatim>\<open>UPDATE forum_posts SET title = $1, content = $2, updated_at = $3 WHERE id = $4\<close>
  \<^verbatim>\<open>RETURNING id, title, content, created_at, updated_at\<close> with
  \<^verbatim>\<open>[title, content, new Date(), id]\<close>: the assignment, the returned columns, the statement.
\<close>

definition set_post :: "string \<Rightarrow> string \<Rightarrow> int \<Rightarrow> post_row \<Rightarrow> post_row" where
  "set_post t c now p = p\<lparr>p_title := t, p_content := c, p_updated_at := Some now\<rparr>"

definition returning_post :: "post_row \<Rightarrow> payload" where
  "returning_post p =
     UpdatedPost (p_id p) (p_title p) (p_content p) (p_created_at p) (p_updated_at p)"

definition update_post :: "driver \<Rightarrow> jsval \<Rightarrow> jsval \<Rightarrow> int \<Rightarrow> string \<Rightarrow> payload list io" where
  "update_post drv title content now ident s =
     (case key_of drv ident of
        None \<Rightarrow> (Inl DbError, s, [UpdatePost title content now ident])
      | Some k \<Rightarrow>
          (case (text_of drv title, text_of drv content) of
             (Some t, Some c) \<Rightarrow>
               (let rows = map (\<lambda>p. if p_id p = k then set_post t c now p else p)
                             (forum_posts s)
                in (Inr (map returning_post (filter (\<lambda>p. p_id p = k) rows)),
                    s\<lparr>forum_posts := rows\<rparr>,
                    [UpdatePost title content now ident]))
           | _ \<Rightarrow> (Inl DbError, s, [UpdatePost title content now ident])))"

text \<open>\<^verbatim>\<open>DELETE FROM comments WHERE post_id = $1\<close> with \<^verbatim>\<open>[id]\<close>.\<close>

definition delete_comments_of_post :: "driver \<Rightarrow> string \<Rightarrow> unit io" where
  "delete_comments_of_post drv ident s =
     (case key_of drv ident of
        None \<Rightarrow> (Inl DbError, s, [DeleteCommentsOfPost ident])
      | Some k \<Rightarrow>
          (Inr (), s\<lparr>comments := filter (\<lambda>c. c_post_id c \<noteq> k) (comments s)\<rparr>,
           [DeleteCommentsOfPost ident]))"

text \<open>
  \<^verbatim>\<open>DELETE FROM forum_posts WHERE id = $1\<close> with \<^verbatim>\<open>[id]\<close>.

  Modelled from the spec: the schema is not in the sources. By the foreign key
  \<^verbatim>\<open>comments.post_id -> forum_posts.id\<close> of the spec the store refuses to delete a post
  that comments still reference.
\<close>

definition delete_post :: "driver \<Rightarrow> string \<Rightarrow> unit io" where
  "delete_post drv ident s =
     (case key_of drv ident of
        None \<Rightarrow> (Inl DbError, s, [DeletePost ident])
      | Some k \<Rightarrow>
          (if k \<in> set (map c_post_id (comments s))
             \<and> k \<in> set (map p_id (forum_posts s))
           then (Inl DbError, s, [DeletePost ident])
           else (Inr (), s\<lparr>forum_posts := filter (\<lambda>p. p_id p \<noteq> k) (forum_posts s)\<rparr>,
                 [DeletePost ident])))"

text \<open>
  \<^verbatim>\<open>INSERT INTO comments (post_id, user_id, content, created_at) VALUES ($1, $2, $3, $4)\<close>
  \<^verbatim>\<open>RETURNING id, content, created_at\<close> with \<^verbatim>\<open>[id, user.id, content, now]\<close>.

  Modelled from the spec: the schema is not in the sources. By the foreign keys
  \<^verbatim>\<open>comments.post_id -> forum_posts.id\<close> and \<^verbatim>\<open>comments.user_id -> users.id\<close> of the
  spec the store refuses a row whose post or user does not exist; the id is generated, and a
  row whose id is taken is refused as well.
\<close>

definition insert_comment :: "driver \<Rightarrow> string \<Rightarrow> int \<Rightarrow> jsval \<Rightarrow> int \<Rightarrow> payload list io" where
  "insert_comment drv ident uid content now s =
     (case key_of drv ident of
        None \<Rightarrow> (Inl DbError, s, [InsertComment ident uid content now])
      | Some k \<Rightarrow>
          (case text_of drv content of
             None \<Rightarrow> (Inl DbError, s, [InsertComment ident uid content now])
           | Some t \<Rightarrow>
               (if k \<in> set (map p_id (forum_posts s))
                  \<and> uid \<in> set (map u_id (users s))
                  \<and> comment_seq s \<notin> set (map c_id (comments s))
                then (Inr [CreatedComment (comment_seq s) t now],
                      s\<lparr>comments := comments s @
                           [\<lparr>c_id = comment_seq s, c_content = t,
                             c_created_at = now, c_updated_at = None,
                             c_post_id = k, c_user_id = uid\<rparr>],
                         comment_seq := comment_seq s + 1\<rparr>,
                      [InsertComment ident uid content now])
                else (Inl DbError, s, [InsertComment ident uid content now]))))"

text \<open>\<^verbatim>\<open>SELECT user_id FROM comments WHERE id = $1\<close> with \<^verbatim>\<open>[id]\<close>.\<close>

definition select_comment_owner :: "driver \<Rightarrow> string \<Rightarrow> int list io" where
  "select_comment_owner drv ident s =
     (case key_of drv ident of
        None \<Rightarrow> (Inl DbError, s, [SelectCommentOwner ident])
      | Some k \<Rightarrow>
          (Inr (map c_user_id (filter (\<lambda>c. c_id c = k) (comments s))), s,
           [SelectCommentOwner ident]))"

text \<open>
  \<^verbatim>\<open>UPDATE comments SET content = $1, updated_at = $2 WHERE id = $3\<close>
  \<^verbatim>\<open>RETURNING id, content, created_at, updated_at\<close> with \<^verbatim>\<open>[content, new Date(), id]\<close>.
\<close>

definition set_comment :: "string \<Rightarrow> int \<Rightarrow> comment_row \<Rightarrow> comment_row" where
  "set_comment t now c = c\<lparr>c_content := t, c_updated_at := Some now\<rparr>"

definition returning_comment :: "comment_row \<Rightarrow> payload" where
  "returning_comment c =
     UpdatedComment (c_id c) (c_content c) (c_created_at c) (c_updated_at c)"

definition update_comment :: "driver \<Rightarrow> jsval \<Rightarrow> int \<Rightarrow> string \<Rightarrow> payload list io" where
  "update_comment drv content now ident s =
     (case key_of drv ident of
        None \<Rightarrow> (Inl DbError, s, [UpdateComment content now ident])
      | Some k \<Rightarrow>
          (case text_of drv content of
             None \<Rightarrow> (Inl DbError, s, [UpdateComment content now ident])
           | Some t \<Rightarrow>
               (let rows = map (\<lambda>c. if c_id c = k then set_comment t now c else c)
                             (comments s)
                in (Inr (map returning_comment (filter (\<lambda>c. c_id c = k) rows)),
                    s\<lparr>comments := rows\<rparr>,
                    [UpdateComment content now ident]))))"

text \<open>\<^verbatim>\<open>DELETE FROM comments WHERE id = $1\<close> with \<^verbatim>\<open>[id]\<close>.\<close>

definition delete_comment :: "driver \<Rightarrow> string \<Rightarrow> unit io" where
  "delete_comment drv ident s =
     (case key_of drv ident of
        None \<Rightarrow> (Inl DbError, s, [DeleteComment ident])
      | Some k \<Rightarrow>
          (Inr (), s\<lparr>comments := filter (\<lambda>c. c_id c \<noteq> k) (comments s)\<rparr>,
           [DeleteComment ident]))"

text \<open>
  \<^verbatim>\<open>INSERT INTO forum_posts (user_id, title, content, created_at) VALUES ($1, $2, $3, $4)\<close>
  \<^verbatim>\<open>RETURNING id, title, content, created_at\<close> with
  \<^verbatim>\<open>[user.id, title, content, now]\<close>.

  Modelled from the spec: the schema is not in the sources. By the foreign key
  \<^verbatim>\<open>forum_posts.user_id -> users.id\<close> of the spec the store refuses a row whose user
  does not exist; the id is generated, and a row whose id is taken is refused as well.
\<close>

definition insert_post :: "driver \<Rightarrow> int \<Rightarrow> jsval \<Rightarrow> jsval \<Rightarrow> int \<Rightarrow> payload list io" where
  "insert_post drv uid title content now s =
     (case (text_of drv title, text_of drv content) of
        (Some t, Some c) \<Rightarrow>
          (if uid \<in> set (map u_id (users s)) \<and> post_seq s \<notin> set (map p_id (forum_posts s))
           then (Inr [CreatedPost (post_seq s) t c now],
                 s\<lparr>forum_posts := forum_posts s @
                      [\<lparr>p_id = post_seq s, p_title = t,
                        p_content = c, p_created_at = now,
                        p_updated_at = None, p_user_id = uid\<rparr>],
                    post_seq := post_seq s + 1\<rparr>,
                 [InsertPost uid title content now])
           else (Inl DbError, s, [InsertPost uid title content now]))
      | _ \<Rightarrow> (Inl DbError, s, [InsertPost uid title content now]))"

subsection \<open>The listing query\<close>

text \<open>
  \<^verbatim>\<open>a LEFT JOIN b\<close> keeps a row of \<open>a\<close> without a partner, with the columns of \<open>b\<close> null;
  \<^verbatim>\<open>json_agg\<close> over no row is null; \<^verbatim>\<open>COALESCE\<close> is its first argument that is not null.
\<close>

definition left_join :: "'a list \<Rightarrow> 'a option list" where
  "left_join ms = (if ms = [] then [None] else map Some ms)"

definition json_agg :: "'a list \<Rightarrow> 'a list option" where
  "json_agg rows = (if rows = [] then None else Some rows)"

definition coalesce :: "'a option \<Rightarrow> 'a option \<Rightarrow> 'a option" where
  "coalesce x y = (case x of None \<Rightarrow> y | Some v \<Rightarrow> Some v)"

definition build_author :: "user_row \<Rightarrow> author" where
  "build_author u = \<lparr>a_id = u_id u, a_name = u_name u\<rparr>"

definition build_comment :: "comment_row \<Rightarrow> user_row option \<Rightarrow> listed_comment" where
  "build_comment c cu =
     \<lparr>lc_id = c_id c, lc_content = c_content c, lc_created_at = c_created_at c,
      lc_user_id = c_user_id c, lc_author = map_option build_author cu\<rparr>"

text \<open>
  The rows of one group: the comments of post \<open>p\<close> (or one null row), each with its author
  (or a null one); the aggregate keeps the rows \<^verbatim>\<open>WHERE c.id IS NOT NULL\<close>.
\<close>

definition group_rows :: "store \<Rightarrow> post_row \<Rightarrow> (comment_row option \<times> user_row option) list" where
  "group_rows s p =
     concat (map (\<lambda>c. case c of
                        None \<Rightarrow> [(None, None)]
                      | Some c' \<Rightarrow>
                          map (\<lambda>cu. (c, cu))
                            (left_join (filter (\<lambda>cu. u_id cu = c_user_id c') (users s))))
                 (left_join (filter (\<lambda>c. c_post_id c = p_id p) (comments s))))"

definition agg_comments :: "(comment_row option \<times> user_row option) list \<Rightarrow> listed_comment list option" where
  "agg_comments rows =
     coalesce
       (json_agg (concat (map (\<lambda>(c, cu). case c of None \<Rightarrow> [] | Some c' \<Rightarrow> [build_comment c' cu])
                            rows)))
       (Some [])"

definition listed :: "store \<Rightarrow> post_row \<Rightarrow> user_row \<Rightarrow> listed_post" where
  "listed s p u =
     \<lparr>lp_id = p_id p, lp_title = p_title p, lp_content = p_content p,
      lp_created_at = p_created_at p, lp_user_id = p_user_id p,
      lp_author = build_author u, lp_comments = agg_comments (group_rows s p)\<rparr>"

text \<open>
  \<^verbatim>\<open>ORDER BY p.created_at DESC\<close>. The order of rows created at the same instant is the
  store's choice; the model keeps their table order.
\<close>

definition order_by_created_at_desc :: "listed_post list \<Rightarrow> listed_post list" where
  "order_by_created_at_desc rows = sort_key (\<lambda>r. - lp_created_at r) rows"

text \<open>
  One group for each pair of a post and a user joined to it; \<^verbatim>\<open>GROUP BY p.id, u.id, u.name\<close>
  gives exactly these groups because \<^verbatim>\<open>p.id\<close> and \<^verbatim>\<open>u.id\<close> are keys.
\<close>

definition select_posts :: "listed_post list io" where
  "select_posts s =
     (Inr (order_by_created_at_desc
             (concat (map (\<lambda>p. map (listed s p)
                                  (filter (\<lambda>u. u_id u = p_user_id p) (users s)))
                          (forum_posts s)))),
      s, [SelectPosts])"

section \<open>The handlers\<close>

text \<open>
  \<^verbatim>\<open>result.rows[0]\<close> handed to \<^verbatim>\<open>NextResponse.json\<close>: there is no JSON for
  \<^verbatim>\<open>undefined\<close>, which is what an empty result would give.
\<close>

definition first_row :: "payload list \<Rightarrow> payload io" where
  "first_row rows = (case rows of [] \<Rightarrow> raise TypeError | r # _ \<Rightarrow> ret r)"

text \<open>
  The handlers wrapped in \<^verbatim>\<open>requireAuth\<close> receive the authenticated \<open>user\<close>; \<open>now\<close> is the
  value of \<^verbatim>\<open>new Date()\<close> and \<open>ident\<close> the path segment \<^verbatim>\<open>id\<close>.
\<close>

definition PUT_post :: "driver \<Rightarrow> int \<Rightarrow> actor \<Rightarrow> string \<Rightarrow> request \<Rightarrow> store \<Rightarrow> response \<times> store \<times> stmt list" where
  "PUT_post drv now user ident request =
     try_catch
       (bind (request_json request) (\<lambda>b.
        bind (destructure b ''title'') (\<lambda>title.
        bind (destructure b ''content'') (\<lambda>content.
          if falsy title \<or> falsy content
          then ret (json_response (Error ''Missing title or content'') 400)
          else
            bind (select_post_owner drv ident) (\<lambda>ownerRes.
              case ownerRes of
                [] \<Rightarrow> ret (json_response (Error ''Post not found'') 404)
              | ownerId # _ \<Rightarrow>
                  if ownerId \<noteq> actor_id user \<and> role user \<noteq> ''admin''
                  then ret (json_response (Error ''Forbidden'') 403)
                  else
                    bind (update_post drv title content now ident) (\<lambda>result.
                    bind (first_row result) (\<lambda>r.
                      ret (json_response r 200))))))))
       (json_response (Error ''Failed to update post'') 500)"

definition DELETE_post :: "driver \<Rightarrow> actor \<Rightarrow> string \<Rightarrow> store \<Rightarrow> response \<times> store \<times> stmt list" where
  "DELETE_post drv user ident =
     try_catch
       (bind (select_post_owner drv ident) (\<lambda>ownerRes.
          case ownerRes of
            [] \<Rightarrow> ret (json_response (Error ''Post not found'') 404)
          | ownerId # _ \<Rightarrow>
              if ownerId \<noteq> actor_id user \<and> role user \<noteq> ''admin''
              then ret (json_response (Error ''Forbidden'') 403)
              else
                bind (delete_comments_of_post drv ident) (\<lambda>_.
                bind (delete_post drv ident) (\<lambda>_.
                  ret (json_response Success 200)))))
       (json_response (Error ''Failed to delete post'') 500)"

definition POST_comment :: "driver \<Rightarrow> int \<Rightarrow> actor \<Rightarrow> string \<Rightarrow> request \<Rightarrow> store \<Rightarrow> response \<times> store \<times> stmt list" where
  "POST_comment drv now user ident request =
     try_catch
       (bind (request_json request) (\<lambda>b.
        bind (destructure b ''content'') (\<lambda>content.
          if falsy content
          then ret (json_response (Error ''Missing content'') 400)
          else
            bind (insert_comment drv ident (actor_id user) content now) (\<lambda>result.
            bind (first_row result) (\<lambda>r.
              ret (json_response r 201))))))
       (json_response (Error ''Failed to create comment'') 500)"

definition PUT_comment :: "driver \<Rightarrow> int \<Rightarrow> actor \<Rightarrow> string \<Rightarrow> request \<Rightarrow> store \<Rightarrow> response \<times> store \<times> stmt list" where
  "PUT_comment drv now user ident request =
     try_catch
       (bind (request_json request) (\<lambda>b.
        bind (destructure b ''content'') (\<lambda>content.
          if falsy content
          then ret (json_response (Error ''Missing content'') 400)
          else
            bind (select_comment_owner drv ident) (\<lambda>ownerRes.
              case ownerRes of
                [] \<Rightarrow> ret (json_response (Error ''Comment not found'') 404)
              | ownerId # _ \<Rightarrow>
                  if ownerId \<noteq> actor_id user \<and> role user \<noteq> ''admin''
                  then ret (json_response (Error ''Forbidden'') 403)
                  else
                    bind (update_comment drv content now ident) (\<lambda>result.
                    bind (first_row result) (\<lambda>r.
                      ret (json_response r 200)))))))
       (json_response (Error ''Failed to update comment'') 500)"

definition DELETE_comment :: "driver \<Rightarrow> actor \<Rightarrow> string \<Rightarrow> store \<Rightarrow> response \<times> store \<times> stmt list" where
  "DELETE_comment drv user ident =
     try_catch
       (bind (select_comment_owner drv ident) (\<lambda>ownerRes.
          case ownerRes of
            [] \<Rightarrow> ret (json_response (Error ''Comment not found'') 404)
          | ownerId # _ \<Rightarrow>
              if ownerId \<noteq> actor_id user \<and> role user \<noteq> ''admin''
              then ret (json_response (Error ''Forbidden'') 403)
              else
                bind (delete_comment drv ident) (\<lambda>_.
                  ret (json_response Success 200))))
       (json_response (Error ''Failed to delete comment'') 500)"

text \<open>The listing handler is exported as it is, without \<^verbatim>\<open>requireAuth\<close>: it takes no user.\<close>

definition GET_posts :: "store \<Rightarrow> response \<times> store \<times> stmt list" where
  "GET_posts =
     try_catch
       (bind select_posts (\<lambda>rows. ret (json_response (Listing rows) 200)))
       (json_response (Error ''Failed to fetch posts'') 500)"

definition POST_post :: "driver \<Rightarrow> int \<Rightarrow> actor \<Rightarrow> request \<Rightarrow> store \<Rightarrow> response \<times> store \<times> stmt list" where
  "POST_post drv now user request =
     try_catch
       (bind (request_json request) (\<lambda>b.
        bind (destructure b ''title'') (\<lambda>title.
        bind (destructure b ''content'') (\<lambda>content.
          if falsy title \<or> falsy content
          then ret (json_response (Error ''Missing title or content'') 400)
          else
            bind (insert_post drv (actor_id user) title content now) (\<lambda>result.
            bind (first_row result) (\<lambda>post.
              ret (json_response post 201)))))))
       (json_response (Error ''Failed to create post'') 500)"

section \<open>The forum view\<close>

text \<open>
  The state of the page component, one field for each \<^verbatim>\<open>useState\<close>. An id of the view is
  \<^verbatim>\<open>number | string\<close>, and \<^verbatim>\<open>===\<close> never equates a number with a string.
\<close>

datatype view_id = NumId int | StrId string

record view_author =
  va_id :: "int option"
  va_name :: string

record ForumComment =
  fc_id :: view_id
  fc_content :: string
  fc_created_at :: string
  fc_author :: "view_author option"
  fc_user_id :: "int option"

record ForumPost =
  fp_id :: view_id
  fp_title :: string
  fp_content :: string
  fp_created_at :: string
  fp_author :: "view_author option"
  fp_comments :: "ForumComment list"
  fp_user_id :: "int option"

record view_state =
  posts :: "ForumPost list"
  showNewPostForm :: bool
  newPost :: "string \<times> string"
  commentInputs :: "(string \<times> string) list"
  loading :: bool
  currentUser :: "(int \<times> string) option"
  editingPost :: "(view_id \<times> string \<times> string) option"
  editingComment :: "(view_id \<times> string) option"

text \<open>A request sent with \<^verbatim>\<open>fetch\<close>: method and path.\<close>

datatype fetch = Fetch string string

text \<open>The copy \<^verbatim>\<open>{ ...post }\<close>: a new object with the fields of \<open>post\<close>.\<close>

definition spread :: "ForumPost \<Rightarrow> ForumPost" where
  "spread post =
     \<lparr>fp_id = fp_id post, fp_title = fp_title post, fp_content = fp_content post,
      fp_created_at = fp_created_at post, fp_author = fp_author post,
      fp_comments = fp_comments post, fp_user_id = fp_user_id post\<rparr>"

text \<open>
  \<^verbatim>\<open>setPosts(posts.map((post) => (post.id === postId ? { ...post } : post)))\<close>; the
  handler is synchronous and calls \<^verbatim>\<open>fetch\<close> nowhere. The result is the next state and the
  requests sent.
\<close>

definition handleLikePost :: "view_id \<Rightarrow> view_state \<Rightarrow> view_state \<times> fetch list" where
  "handleLikePost postId st =
     (st\<lparr>posts := map (\<lambda>post. if fp_id post = postId then spread post else post) (posts st)\<rparr>,
      [])"

section \<open>Notions used to state the properties\<close>

text \<open>The row a path key denotes: the one the owner lookup of the handlers reads.\<close>

definition post_at :: "store \<Rightarrow> int \<Rightarrow> post_row option" where
  "post_at s k = find (\<lambda>p. p_id p = k) (forum_posts s)"

definition comment_at :: "store \<Rightarrow> int \<Rightarrow> comment_row option" where
  "comment_at s k = find (\<lambda>c. c_id c = k) (comments s)"

text \<open>The statements that write: every one but the two owner lookups and the listing.\<close>

fun mutating :: "stmt \<Rightarrow> bool" where
  "mutating (SelectPostOwner i) = False"
| "mutating (SelectCommentOwner i) = False"
| "mutating SelectPosts = False"
| "mutating _ = True"

text \<open>The comment rows that reference post \<open>k\<close>.\<close>

definition comments_of :: "store \<Rightarrow> int \<Rightarrow> comment_row list" where
  "comments_of s k = filter (\<lambda>c. c_post_id c = k) (comments s)"

subsection \<open>A small forum for the concrete instances\<close>

definition demo_driver :: driver where
  "demo_driver =
     \<lparr>text_of = (\<lambda>v. case v of
                        Str t \<Rightarrow> if CHR 0x00 \<in> set t then None else Some t
                      | _ \<Rightarrow> Some ''?''),
      key_of = map_of [(''1'', 1), (''2'', 2), (''999'', 999)]\<rparr>"

definition demo_post :: post_row where
  "demo_post =
     \<lparr>p_id = 1, p_title = ''Rain'', p_content = ''Heavy rain today'', p_created_at = 10,
      p_updated_at = None, p_user_id = 1\<rparr>"

definition demo_comment :: comment_row where
  "demo_comment =
     \<lparr>c_id = 1, c_content = ''nice'', c_created_at = 11, c_updated_at = None,
      c_post_id = 1, c_user_id = 2\<rparr>"

definition demo_store :: store where
  "demo_store =
     \<lparr>users = [\<lparr>u_id = 1, u_name = ''A''\<rparr>, \<lparr>u_id = 2, u_name = ''B''\<rparr>,
               \<lparr>u_id = 3, u_name = ''Root''\<rparr>],
      forum_posts = [demo_post,
               \<lparr>p_id = 2, p_title = ''Sun'', p_content = ''Clear sky'', p_created_at = 20,
                p_updated_at = None, p_user_id = 2\<rparr>],
      comments = [demo_comment],
      post_seq = 3, comment_seq = 2\<rparr>"

definition actor_A :: actor where
  "actor_A = \<lparr>actor_id = 1, role = ''user''\<rparr>"

definition actor_B :: actor where
  "actor_B = \<lparr>actor_id = 2, role = ''user''\<rparr>"

definition actor_admin :: actor where
  "actor_admin = \<lparr>actor_id = 3, role = ''admin''\<rparr>"

definition valid_post_body :: jsval where
  "valid_post_body = Obj [(''title'', Str ''Storm''), (''content'', Str ''Wind and hail'')]"

text \<open>A body that passes the validation of the handlers and that the store rejects.\<close>

definition rejected_post_body :: jsval where
  "rejected_post_body = Obj [(''title'', Str [CHR 0x00]), (''content'', Str ''Wind and hail'')]"

definition rejected_comment_body :: jsval where
  "rejected_comment_body = Obj [(''content'', Str [CHR 0x00])]"

definition valid_comment_body :: jsval where
  "valid_comment_body = Obj [(''content'', Str ''nice'')]"

section \<open>Lists\<close>

lemma find_Some_filter: "find P xs = Some x \<Longrightarrow> \<exists>ys. filter P xs = x # ys"
  by (induction xs) (auto split: if_splits)

lemma find_None_filter: "find P xs = None \<Longrightarrow> filter P xs = []"
  by (induction xs) (auto split: if_splits)

lemma find_after_filter_neg: "find P (filter (\<lambda>x. \<not> P x) xs) = None"
  by (induction xs) auto

lemma find_updated:
  assumes "\<And>x. key (f x) = key x"
  shows "find (\<lambda>x. key x = k) (map (\<lambda>x. if key x = k then f x else x) xs)
           = map_option f (find (\<lambda>x. key x = k) xs)"
  by (induction xs) (simp_all add: assms)

lemma filter_others_updated:
  "filter (\<lambda>x. key x \<noteq> k) (map (\<lambda>x. if key x = k then f x else x) xs)
     = filter (\<lambda>x. key x \<noteq> k) xs"
  if "\<And>x. key (f x) = key x"
  by (induction xs) (simp_all add: that)

lemma map_field_updated:
  assumes "\<And>x. g (f x) = g x"
  shows "map g (map (\<lambda>x. if P x then f x else x) xs) = map g xs"
  by (induction xs) (simp_all add: assms)

lemma unique_match:
  assumes "distinct (map f xs)" and "k \<in> set (map f xs)"
  shows "\<exists>x. filter (\<lambda>x. f x = k) xs = [x] \<and> f x = k \<and> x \<in> set xs"
  using assms
proof (induction xs)
  case Nil
  then show ?case by simp
next
  case (Cons a xs)
  show ?case
  proof (cases "f a = k")
    case True
    from Cons.prems(1) have "f a \<notin> f ` set xs"
      by simp
    with True have "\<forall>x \<in> set xs. f x \<noteq> k"
      by blast
    then have "filter (\<lambda>x. f x = k) xs = []"
      by (simp add: filter_empty_conv)
    with True show ?thesis by simp
  next
    case False
    with Cons show ?thesis by auto
  qed
qed

section \<open>What each handler computes\<close>

lemmas io_defs = try_catch_def bind_def ret_def raise_def request_json_def destructure_def
  first_row_def json_response_def resp_of_def db_of_def issued_def

lemma status_json_response: "status (json_response b st) = st"
  by (simp add: json_response_def)

lemma p_id_set_post: "p_id (set_post t c now p) = p_id p"
  by (simp add: set_post_def)

lemma c_id_set_comment: "c_id (set_comment t now c) = c_id c"
  by (simp add: set_comment_def)

lemma filter_updated_posts:
  "filter (\<lambda>p. p_id p = k) (map (\<lambda>q. if p_id q = k then set_post t c now q else q) ps)
     = map (set_post t c now) (filter (\<lambda>p. p_id p = k) ps)"
  by (induction ps) (auto simp: p_id_set_post)

lemma filter_updated_comments:
  "filter (\<lambda>c. c_id c = k) (map (\<lambda>q. if c_id q = k then set_comment t now q else q) cs)
     = map (set_comment t now) (filter (\<lambda>c. c_id c = k) cs)"
  by (induction cs) (auto simp: c_id_set_comment)

lemma post_at_rows:
  assumes "post_at s k = Some p"
  shows "\<exists>ys. filter (\<lambda>p. p_id p = k) (forum_posts s) = p # ys"
  using assms unfolding post_at_def by (rule find_Some_filter)

lemma comment_at_rows:
  assumes "comment_at s k = Some c"
  shows "\<exists>ys. filter (\<lambda>c. c_id c = k) (comments s) = c # ys"
  using assms unfolding comment_at_def by (rule find_Some_filter)

lemma post_at_None_iff: "post_at s k = None \<longleftrightarrow> k \<notin> set (map p_id (forum_posts s))"
  by (auto simp add: post_at_def find_None_iff)

lemma post_at_key: "post_at s k = Some p \<Longrightarrow> p_id p = k"
  by (auto simp add: post_at_def find_Some_iff)

lemma comment_at_key: "comment_at s k = Some c \<Longrightarrow> c_id c = k"
  by (auto simp add: comment_at_def find_Some_iff)

lemma no_reference_left: "k \<notin> c_post_id ` {c \<in> set cs. c_post_id c \<noteq> k}"
  by auto

subsection \<open>Updating a post\<close>

lemma PUT_post_unreadable:
  assumes "request = None \<or> request = Some Null \<or> request = Some Undefined"
  shows "PUT_post drv now user ident request s =
           (json_response (Error ''Failed to update post'') 500, s, [])"
  using assms by (auto simp add: PUT_post_def io_defs)

lemma PUT_post_invalid:
  assumes "b \<noteq> Null" "b \<noteq> Undefined" "falsy (get_prop b ''title'') \<or> falsy (get_prop b ''content'')"
  shows "PUT_post drv now user ident (Some b) s =
           (json_response (Error ''Missing title or content'') 400, s, [])"
  using assms by (auto simp add: PUT_post_def io_defs)

lemma PUT_post_bad_key:
  assumes "key_of drv ident = None"
    "\<not> falsy (get_prop b ''title'')" "\<not> falsy (get_prop b ''content'')" "b \<noteq> Null" "b \<noteq> Undefined"
  shows "PUT_post drv now user ident (Some b) s =
           (json_response (Error ''Failed to update post'') 500, s, [SelectPostOwner ident])"
  using assms by (simp add: PUT_post_def io_defs select_post_owner_def)

lemma PUT_post_absent:
  assumes "key_of drv ident = Some k" "post_at s k = None"
    "\<not> falsy (get_prop b ''title'')" "\<not> falsy (get_prop b ''content'')" "b \<noteq> Null" "b \<noteq> Undefined"
  shows "PUT_post drv now user ident (Some b) s =
           (json_response (Error ''Post not found'') 404, s, [SelectPostOwner ident])"
  using assms(1,3-6) find_None_filter [OF assms(2) [unfolded post_at_def]]
  by (simp add: PUT_post_def io_defs select_post_owner_def)

lemma PUT_post_forbidden:
  assumes "key_of drv ident = Some k" "post_at s k = Some p"
    "\<not> falsy (get_prop b ''title'')" "\<not> falsy (get_prop b ''content'')" "b \<noteq> Null" "b \<noteq> Undefined"
    and "\<not> (actor_id user = p_user_id p \<or> role user = ''admin'')"
  shows "PUT_post drv now user ident (Some b) s =
           (json_response (Error ''Forbidden'') 403, s, [SelectPostOwner ident])"
proof -
  from post_at_rows [OF assms(2)] obtain ys
    where f: "filter (\<lambda>p. p_id p = k) (forum_posts s) = p # ys" ..
  show ?thesis
    using assms(1,3-7) f
    by (simp add: PUT_post_def io_defs select_post_owner_def)
qed

lemma PUT_post_accepted:
  assumes "key_of drv ident = Some k" "post_at s k = Some p"
    "\<not> falsy (get_prop b ''title'')" "\<not> falsy (get_prop b ''content'')" "b \<noteq> Null" "b \<noteq> Undefined"
    and "actor_id user = p_user_id p \<or> role user = ''admin''"
    and "text_of drv (get_prop b ''title'') = Some t" "text_of drv (get_prop b ''content'') = Some c"
  shows "PUT_post drv now user ident (Some b) s =
           (json_response (returning_post (set_post t c now p)) 200,
            s\<lparr>forum_posts := map (\<lambda>q. if p_id q = k then set_post t c now q else q) (forum_posts s)\<rparr>,
            [SelectPostOwner ident, UpdatePost (get_prop b ''title'') (get_prop b ''content'') now ident])"
proof -
  from post_at_rows [OF assms(2)] obtain ys
    where f: "filter (\<lambda>p. p_id p = k) (forum_posts s) = p # ys" ..
  show ?thesis
    using assms(1,3-9) f
    by (auto simp add: PUT_post_def io_defs select_post_owner_def update_post_def
          filter_updated_posts)
qed

lemma PUT_post_refused:
  assumes "key_of drv ident = Some k" "post_at s k = Some p"
    "\<not> falsy (get_prop b ''title'')" "\<not> falsy (get_prop b ''content'')" "b \<noteq> Null" "b \<noteq> Undefined"
    and "actor_id user = p_user_id p \<or> role user = ''admin''"
    and "text_of drv (get_prop b ''title'') = None \<or> text_of drv (get_prop b ''content'') = None"
  shows "PUT_post drv now user ident (Some b) s =
           (json_response (Error ''Failed to update post'') 500, s,
            [SelectPostOwner ident, UpdatePost (get_prop b ''title'') (get_prop b ''content'') now ident])"
proof -
  from post_at_rows [OF assms(2)] obtain ys
    where f: "filter (\<lambda>p. p_id p = k) (forum_posts s) = p # ys" ..
  show ?thesis
    using assms(1,3-8) f
    by (auto simp add: PUT_post_def io_defs select_post_owner_def update_post_def
          split: option.splits)
qed

text \<open>A PUT on a post answers 200 only on the path through the update.\<close>

lemma PUT_post_200:
  assumes "status (resp_of (PUT_post drv now user ident request s)) = 200"
  obtains b k p t c where "request = Some b" "b \<noteq> Null" "b \<noteq> Undefined"
    "\<not> falsy (get_prop b ''title'')" "\<not> falsy (get_prop b ''content'')"
    "key_of drv ident = Some k" "post_at s k = Some p"
    "actor_id user = p_user_id p \<or> role user = ''admin''"
    "text_of drv (get_prop b ''title'') = Some t" "text_of drv (get_prop b ''content'') = Some c"
proof (cases request)
  case None
  with assms show ?thesis
    by (simp add: PUT_post_unreadable resp_of_def status_json_response)
next
  case (Some b)
  show ?thesis
  proof (cases "b = Null \<or> b = Undefined")
    case True
    with assms Some show ?thesis
      by (auto simp add: PUT_post_unreadable resp_of_def status_json_response)
  next
    case nn: False
    show ?thesis
    proof (cases "falsy (get_prop b ''title'') \<or> falsy (get_prop b ''content'')")
      case True
      with assms Some nn show ?thesis
        by (simp add: PUT_post_invalid resp_of_def status_json_response)
    next
      case valid: False
      show ?thesis
      proof (cases "key_of drv ident")
        case None
        with assms Some nn valid show ?thesis
          by (simp add: PUT_post_bad_key resp_of_def status_json_response)
      next
        case key: (Some k)
        show ?thesis
        proof (cases "post_at s k")
          case None
          with assms Some nn valid key show ?thesis
            by (simp add: PUT_post_absent resp_of_def status_json_response)
        next
          case post: (Some p)
          have auth: "actor_id user = p_user_id p \<or> role user = ''admin''"
          proof (rule ccontr)
            assume "\<not> ?thesis"
            from PUT_post_forbidden [OF key post _ _ _ _ this, of b now] assms Some nn valid
            show False
              by (simp add: resp_of_def status_json_response)
          qed
          have "\<not> (text_of drv (get_prop b ''title'') = None \<or>
                   text_of drv (get_prop b ''content'') = None)"
          proof
            assume "text_of drv (get_prop b ''title'') = None \<or>
                   text_of drv (get_prop b ''content'') = None"
            from PUT_post_refused [OF key post _ _ _ _ auth this, of now] assms Some nn valid
            show False
              by (simp add: resp_of_def status_json_response)
          qed
          then obtain t c where "text_of drv (get_prop b ''title'') = Some t"
            "text_of drv (get_prop b ''content'') = Some c"
            by auto
          with Some nn valid key post auth that show ?thesis
            by blast
        qed
      qed
    qed
  qed
qed

subsection \<open>Deleting a post\<close>

lemma DELETE_post_bad_key:
  assumes "key_of drv ident = None"
  shows "DELETE_post drv user ident s =
           (json_response (Error ''Failed to delete post'') 500, s, [SelectPostOwner ident])"
  using assms by (simp add: DELETE_post_def io_defs select_post_owner_def)

lemma DELETE_post_absent:
  assumes "key_of drv ident = Some k" "post_at s k = None"
  shows "DELETE_post drv user ident s = (json_response (Error ''Post not found'') 404, s, [SelectPostOwner ident])"
  using assms(1) find_None_filter [OF assms(2) [unfolded post_at_def]]
  by (simp add: DELETE_post_def io_defs select_post_owner_def)

lemma DELETE_post_gate:
  assumes "key_of drv ident = Some k" "post_at s k = Some p"
  shows "DELETE_post drv user ident s =
     (if actor_id user = p_user_id p \<or> role user = ''admin''
      then (json_response Success 200,
            s\<lparr>forum_posts := filter (\<lambda>q. p_id q \<noteq> k) (forum_posts s),
              comments := filter (\<lambda>c. c_post_id c \<noteq> k) (comments s)\<rparr>,
            [SelectPostOwner ident, DeleteCommentsOfPost ident, DeletePost ident])
      else (json_response (Error ''Forbidden'') 403, s, [SelectPostOwner ident]))"
proof -
  from post_at_rows [OF assms(2)] obtain ys
    where f: "filter (\<lambda>p. p_id p = k) (forum_posts s) = p # ys" ..
  show ?thesis
    using assms(1) f
    by (simp add: DELETE_post_def io_defs select_post_owner_def delete_comments_of_post_def
          delete_post_def no_reference_left)
qed

lemma DELETE_post_200:
  assumes "status (resp_of (DELETE_post drv user ident s)) = 200"
  obtains k p where "key_of drv ident = Some k" "post_at s k = Some p"
    "actor_id user = p_user_id p \<or> role user = ''admin''"
proof (cases "key_of drv ident")
  case None
  with assms show ?thesis
    by (simp add: DELETE_post_bad_key resp_of_def status_json_response)
next
  case key: (Some k)
  show ?thesis
  proof (cases "post_at s k")
    case None
    with assms key show ?thesis
      by (simp add: DELETE_post_absent resp_of_def status_json_response)
  next
    case post: (Some p)
    have "actor_id user = p_user_id p \<or> role user = ''admin''"
    proof (rule ccontr)
      assume "\<not> ?thesis"
      with assms DELETE_post_gate [OF key post, of user]
      show False
        by (simp add: resp_of_def status_json_response)
    qed
    with key post that show ?thesis
      by blast
  qed
qed

subsection \<open>Updating and deleting a comment\<close>

lemma PUT_comment_unreadable:
  assumes "request = None \<or> request = Some Null \<or> request = Some Undefined"
  shows "PUT_comment drv now user ident request s =
           (json_response (Error ''Failed to update comment'') 500, s, [])"
  using assms by (auto simp add: PUT_comment_def io_defs)

lemma PUT_comment_invalid:
  assumes "b \<noteq> Null" "b \<noteq> Undefined" "falsy (get_prop b ''content'')"
  shows "PUT_comment drv now user ident (Some b) s =
           (json_response (Error ''Missing content'') 400, s, [])"
  using assms by (auto simp add: PUT_comment_def io_defs)

lemma PUT_comment_forbidden:
  assumes "key_of drv ident = Some k" "comment_at s k = Some c"
    "\<not> falsy (get_prop b ''content'')" "b \<noteq> Null" "b \<noteq> Undefined"
    and "\<not> (actor_id user = c_user_id c \<or> role user = ''admin'')"
  shows "PUT_comment drv now user ident (Some b) s =
           (json_response (Error ''Forbidden'') 403, s, [SelectCommentOwner ident])"
proof -
  from comment_at_rows [OF assms(2)] obtain ys
    where f: "filter (\<lambda>c. c_id c = k) (comments s) = c # ys" ..
  show ?thesis
    using assms(1,3-6) f
    by (simp add: PUT_comment_def io_defs select_comment_owner_def)
qed

lemma PUT_comment_accepted:
  assumes "key_of drv ident = Some k" "comment_at s k = Some c"
    "\<not> falsy (get_prop b ''content'')" "b \<noteq> Null" "b \<noteq> Undefined"
    and "actor_id user = c_user_id c \<or> role user = ''admin''"
    and "text_of drv (get_prop b ''content'') = Some t"
  shows "PUT_comment drv now user ident (Some b) s =
           (json_response (returning_comment (set_comment t now c)) 200,
            s\<lparr>comments := map (\<lambda>q. if c_id q = k then set_comment t now q else q) (comments s)\<rparr>,
            [SelectCommentOwner ident, UpdateComment (get_prop b ''content'') now ident])"
proof -
  from comment_at_rows [OF assms(2)] obtain ys
    where f: "filter (\<lambda>c. c_id c = k) (comments s) = c # ys" ..
  show ?thesis
    using assms(1,3-7) f
    by (auto simp add: PUT_comment_def io_defs select_comment_owner_def update_comment_def
          filter_updated_comments)
qed

lemma PUT_comment_refused:
  assumes "key_of drv ident = Some k" "comment_at s k = Some c"
    "\<not> falsy (get_prop b ''content'')" "b \<noteq> Null" "b \<noteq> Undefined"
    and "actor_id user = c_user_id c \<or> role user = ''admin''"
    and "text_of drv (get_prop b ''content'') = None"
  shows "PUT_comment drv now user ident (Some b) s =
           (json_response (Error ''Failed to update comment'') 500, s,
            [SelectCommentOwner ident, UpdateComment (get_prop b ''content'') now ident])"
proof -
  from comment_at_rows [OF assms(2)] obtain ys
    where f: "filter (\<lambda>c. c_id c = k) (comments s) = c # ys" ..
  show ?thesis
    using assms(1,3-7) f
    by (auto simp add: PUT_comment_def io_defs select_comment_owner_def update_comment_def)
qed

lemma DELETE_comment_bad_key:
  assumes "key_of drv ident = None"
  shows "DELETE_comment drv user ident s =
           (json_response (Error ''Failed to delete comment'') 500, s, [SelectCommentOwner ident])"
  using assms by (simp add: DELETE_comment_def io_defs select_comment_owner_def)

lemma DELETE_comment_absent:
  assumes "key_of drv ident = Some k" "comment_at s k = None"
  shows "DELETE_comment drv user ident s = (json_response (Error ''Comment not found'') 404, s, [SelectCommentOwner ident])"
  using assms(1) find_None_filter [OF assms(2) [unfolded comment_at_def]]
  by (simp add: DELETE_comment_def io_defs select_comment_owner_def)

lemma DELETE_comment_gate:
  assumes "key_of drv ident = Some k" "comment_at s k = Some c"
  shows "DELETE_comment drv user ident s =
     (if actor_id user = c_user_id c \<or> role user = ''admin''
      then (json_response Success 200,
            s\<lparr>comments := filter (\<lambda>q. c_id q \<noteq> k) (comments s)\<rparr>,
            [SelectCommentOwner ident, DeleteComment ident])
      else (json_response (Error ''Forbidden'') 403, s, [SelectCommentOwner ident]))"
proof -
  from comment_at_rows [OF assms(2)] obtain ys
    where f: "filter (\<lambda>c. c_id c = k) (comments s) = c # ys" ..
  show ?thesis
    using assms(1) f
    by (simp add: DELETE_comment_def io_defs select_comment_owner_def delete_comment_def)
qed

lemma DELETE_comment_200:
  assumes "status (resp_of (DELETE_comment drv user ident s)) = 200"
  obtains k c where "key_of drv ident = Some k" "comment_at s k = Some c"
    "actor_id user = c_user_id c \<or> role user = ''admin''"
proof (cases "key_of drv ident")
  case None
  with assms show ?thesis
    by (simp add: DELETE_comment_bad_key resp_of_def status_json_response)
next
  case key: (Some k)
  show ?thesis
  proof (cases "comment_at s k")
    case None
    with assms key show ?thesis
      by (simp add: DELETE_comment_absent resp_of_def status_json_response)
  next
    case com: (Some c)
    have "actor_id user = c_user_id c \<or> role user = ''admin''"
    proof (rule ccontr)
      assume "\<not> ?thesis"
      with assms DELETE_comment_gate [OF key com, of user]
      show False
        by (simp add: resp_of_def status_json_response)
    qed
    with key com that show ?thesis
      by blast
  qed
qed

subsection \<open>Creating\<close>

lemma POST_post_unreadable:
  assumes "request = None \<or> request = Some Null \<or> request = Some Undefined"
  shows "POST_post drv now user request s =
           (json_response (Error ''Failed to create post'') 500, s, [])"
  using assms by (auto simp add: POST_post_def io_defs)

lemma POST_post_invalid:
  assumes "b \<noteq> Null" "b \<noteq> Undefined" "falsy (get_prop b ''title'') \<or> falsy (get_prop b ''content'')"
  shows "POST_post drv now user (Some b) s =
           (json_response (Error ''Missing title or content'') 400, s, [])"
  using assms by (auto simp add: POST_post_def io_defs)

lemma POST_post_valid_issued:
  assumes "b \<noteq> Null" "b \<noteq> Undefined"
    "\<not> falsy (get_prop b ''title'')" "\<not> falsy (get_prop b ''content'')"
  shows "issued (POST_post drv now user (Some b) s) =
           [InsertPost (actor_id user) (get_prop b ''title'') (get_prop b ''content'') now]"
  using assms
  by (simp add: POST_post_def io_defs insert_post_def split: option.splits)

lemma POST_comment_invalid:
  assumes "b \<noteq> Null" "b \<noteq> Undefined" "falsy (get_prop b ''content'')"
  shows "POST_comment drv now user ident (Some b) s =
           (json_response (Error ''Missing content'') 400, s, [])"
  using assms by (auto simp add: POST_comment_def io_defs)

lemma POST_comment_rejected:
  assumes "b \<noteq> Null" "b \<noteq> Undefined" "\<not> falsy (get_prop b ''content'')"
    and "\<forall>k. key_of drv ident = Some k \<longrightarrow> k \<notin> set (map p_id (forum_posts s))"
  shows "POST_comment drv now user ident (Some b) s =
           (json_response (Error ''Failed to create comment'') 500, s,
            [InsertComment ident (actor_id user) (get_prop b ''content'') now])"
  using assms
  by (cases "key_of drv ident")
    (simp_all add: POST_comment_def io_defs insert_comment_def split: option.splits)

subsection \<open>Listing\<close>

lemma GET_posts_eq:
  "GET_posts s =
     (json_response (Listing (order_by_created_at_desc
        (concat (map (\<lambda>p. map (listed s p) (filter (\<lambda>u. u_id u = p_user_id p) (users s)))
                     (forum_posts s))))) 200, s, [SelectPosts])"
  by (simp add: GET_posts_def io_defs select_posts_def)

lemma joined_ids:
  assumes "distinct (map u_id us)"
    and "list_all (\<lambda>p. p_user_id p \<in> set (map u_id us)) ps"
  shows "map lp_id (concat (map (\<lambda>p. map (listed s p) (filter (\<lambda>u. u_id u = p_user_id p) us)) ps))
           = map p_id ps"
  using assms(2)
proof (induction ps)
  case Nil
  then show ?case by simp
next
  case (Cons p ps)
  from Cons.prems have "p_user_id p \<in> set (map u_id us)"
    by simp
  from unique_match [OF assms(1) this] obtain u
    where "filter (\<lambda>u. u_id u = p_user_id p) us = [u]"
    by blast
  with Cons show ?case
    by (simp add: listed_def)
qed

lemma joined_row:
  assumes "r \<in> set (concat (map (\<lambda>p. map (listed s p) (filter (\<lambda>u. u_id u = p_user_id p) us)) ps))"
  obtains p u where "p \<in> set ps" "u \<in> set us" "u_id u = p_user_id p" "r = listed s p u"
  using assms by auto

lemma listed_ids:
  "\<exists>rows. resp_of (GET_posts s) = \<lparr>status = 200, body = Listing rows\<rparr> \<and>
          set (map lp_id rows) \<subseteq> set (map p_id (forum_posts s))"
proof -
  let ?joined = "concat (map (\<lambda>p. map (listed s p) (filter (\<lambda>u. u_id u = p_user_id p) (users s)))
                     (forum_posts s))"
  have "lp_id r \<in> set (map p_id (forum_posts s))" if "r \<in> set ?joined" for r
    using that by (rule joined_row) (simp add: listed_def)
  then have "set (map lp_id (order_by_created_at_desc ?joined)) \<subseteq> set (map p_id (forum_posts s))"
    by (auto simp add: order_by_created_at_desc_def)
  then show ?thesis
    by (simp add: GET_posts_eq resp_of_def json_response_def)
qed

text \<open>The aggregate of a group: one entry for each pair of a comment of the post and an author row.\<close>

lemma agg_comments_group:
  "agg_comments (group_rows s p) =
     Some (concat (map (\<lambda>c. map (build_comment c)
                           (left_join (filter (\<lambda>cu. u_id cu = c_user_id c) (users s))))
                       (comments_of s (p_id p))))"
proof (cases "comments_of s (p_id p) = []")
  case True
  then show ?thesis
    by (simp add: agg_comments_def group_rows_def comments_of_def left_join_def json_agg_def
          coalesce_def)
next
  case False
  let ?lj = "\<lambda>c. left_join (filter (\<lambda>cu. u_id cu = c_user_id c) (users s))"
  have g: "group_rows s p =
      concat (map (\<lambda>c. map (\<lambda>cu. (Some c, cu)) (?lj c)) (comments_of s (p_id p)))"
    using False
    by (simp add: group_rows_def comments_of_def left_join_def [of "filter _ (comments s)"]
          o_def)
  have a: "concat (map (\<lambda>(c, cu). case c of None \<Rightarrow> [] | Some c' \<Rightarrow> [build_comment c' cu])
                    (concat (map (\<lambda>c. map (\<lambda>cu. (Some c, cu)) (?lj c)) cs)))
            = concat (map (\<lambda>c. map (build_comment c) (?lj c)) cs)" for cs
  proof (induction cs)
    case Nil
    then show ?case by simp
  next
    case (Cons c cs)
    have "concat (map (\<lambda>(c, cu). case c of None \<Rightarrow> [] | Some c' \<Rightarrow> [build_comment c' cu])
                    (map (\<lambda>cu. (Some c, cu)) xs)) = map (build_comment c) xs" for xs
      by (induction xs) simp_all
    with Cons show ?case by simp
  qed
  have ne: "?lj c \<noteq> []" for c
    by (simp add: left_join_def)
  from False obtain c cs where "comments_of s (p_id p) = c # cs"
    by (cases "comments_of s (p_id p)") auto
  with ne [of c] have "concat (map (\<lambda>c. map (build_comment c) (?lj c)) (comments_of s (p_id p))) \<noteq> []"
    by simp
  then show ?thesis
    by (simp add: agg_comments_def g a json_agg_def coalesce_def)
qed

lemma comment_entries:
  assumes "distinct (map u_id us)"
    and "list_all (\<lambda>c. c_user_id c \<in> set (map u_id us)) cs"
  shows "map lc_id (concat (map (\<lambda>c. map (build_comment c)
                           (left_join (filter (\<lambda>cu. u_id cu = c_user_id c) us))) cs))
           = map c_id cs"
  using assms(2)
proof (induction cs)
  case Nil
  then show ?case by simp
next
  case (Cons c cs)
  from Cons.prems have "c_user_id c \<in> set (map u_id us)"
    by simp
  from unique_match [OF assms(1) this] obtain u
    where "filter (\<lambda>u. u_id u = c_user_id c) us = [u]"
    by blast
  with Cons show ?case
    by (simp add: left_join_def build_comment_def)
qed

lemma created_desc: "sorted_wrt (\<lambda>a b. b \<le> a) (map lp_created_at (order_by_created_at_desc rows))"
proof -
  have "sorted (map (\<lambda>r. - lp_created_at r) (sort_key (\<lambda>r. - lp_created_at r) rows))"
    by (rule sorted_sort_key)
  then show ?thesis
    by (simp add: order_by_created_at_desc_def sorted_wrt_map)
qed

section \<open>The schema is preserved\<close>

lemma wf_update_posts:
  assumes "wf_store s"
  shows "wf_store (s\<lparr>forum_posts :=
            map (\<lambda>q. if p_id q = k then set_post t c now q else q) (forum_posts s)\<rparr>)"
proof -
  let ?f = "set_post t c now"
  have keep: "p_id (?f q) = p_id q" "p_user_id (?f q) = p_user_id q" for q
    by (simp_all add: set_post_def)
  have ids: "map p_id (map (\<lambda>q. if p_id q = k then ?f q else q) (forum_posts s))
      = map p_id (forum_posts s)"
    by (rule map_field_updated) (rule keep)
  have "list_all P (map (\<lambda>q. if p_id q = k then ?f q else q) ps)"
    if "list_all P ps" "\<And>q. P q \<Longrightarrow> P (?f q)" for P ps
    using that by (induction ps) simp_all
  note all = this
  from assms show ?thesis
    unfolding wf_store_def
    by (auto simp add: ids keep simp del: map_map intro!: all)
qed

lemma wf_update_comments:
  assumes "wf_store s"
  shows "wf_store (s\<lparr>comments :=
            map (\<lambda>q. if c_id q = k then set_comment t now q else q) (comments s)\<rparr>)"
proof -
  let ?f = "set_comment t now"
  have keep: "c_id (?f q) = c_id q" "c_user_id (?f q) = c_user_id q"
    "c_post_id (?f q) = c_post_id q" for q
    by (simp_all add: set_comment_def)
  have ids: "map c_id (map (\<lambda>q. if c_id q = k then ?f q else q) (comments s))
      = map c_id (comments s)"
    by (rule map_field_updated) (rule keep)
  have "list_all P (map (\<lambda>q. if c_id q = k then ?f q else q) cs)"
    if "list_all P cs" "\<And>q. P q \<Longrightarrow> P (?f q)" for P cs
    using that by (induction cs) simp_all
  note all = this
  from assms show ?thesis
    unfolding wf_store_def
    by (auto simp add: ids keep simp del: map_map intro!: all)
qed

lemma wf_delete_comment:
  assumes "wf_store s"
  shows "wf_store (s\<lparr>comments := filter P (comments s)\<rparr>)"
  using assms unfolding wf_store_def
  by (auto simp add: distinct_map_filter list_all_iff)

lemma wf_delete_post:
  assumes "wf_store s"
  shows "wf_store (s\<lparr>forum_posts := filter (\<lambda>q. p_id q \<noteq> k) (forum_posts s),
                     comments := filter (\<lambda>c. c_post_id c \<noteq> k) (comments s)\<rparr>)"
  using assms unfolding wf_store_def
  by (auto simp add: distinct_map_filter list_all_iff)

lemma wf_insert_comment:
  assumes "wf_store s" "k \<in> set (map p_id (forum_posts s))" "uid \<in> set (map u_id (users s))"
  shows "wf_store (s\<lparr>comments := comments s @
                      [\<lparr>c_id = comment_seq s, c_content = t,
                        c_created_at = now, c_updated_at = None,
                        c_post_id = k, c_user_id = uid\<rparr>],
                    comment_seq := comment_seq s + 1\<rparr>)"
  using assms unfolding wf_store_def
  by (auto simp add: list_all_iff)

lemma wf_insert_post:
  assumes "wf_store s" "uid \<in> set (map u_id (users s))"
  shows "wf_store (s\<lparr>forum_posts := forum_posts s @
                 [\<lparr>p_id = post_seq s, p_title = t,
                   p_content = c, p_created_at = now,
                   p_updated_at = None, p_user_id = uid\<rparr>],
               post_seq := post_seq s + 1\<rparr>)"
  using assms unfolding wf_store_def
  by (auto simp add: list_all_iff)

lemma PUT_post_db:
  "db_of (PUT_post drv now user ident request s) = s \<or>
   (\<exists>k t c. db_of (PUT_post drv now user ident request s) =
      s\<lparr>forum_posts := map (\<lambda>q. if p_id q = k then set_post t c now q else q) (forum_posts s)\<rparr>)"
  by (auto simp add: PUT_post_def io_defs select_post_owner_def update_post_def
        filter_updated_posts Let_def split: option.splits list.splits)

lemma PUT_comment_db:
  "db_of (PUT_comment drv now user ident request s) = s \<or>
   (\<exists>k t. db_of (PUT_comment drv now user ident request s) =
      s\<lparr>comments := map (\<lambda>q. if c_id q = k then set_comment t now q else q) (comments s)\<rparr>)"
  by (auto simp add: PUT_comment_def io_defs select_comment_owner_def update_comment_def
        filter_updated_comments Let_def split: option.splits list.splits)

lemma DELETE_post_db:
  "db_of (DELETE_post drv user ident s) = s \<or>
   (\<exists>k. db_of (DELETE_post drv user ident s) =
      s\<lparr>forum_posts := filter (\<lambda>q. p_id q \<noteq> k) (forum_posts s),
        comments := filter (\<lambda>c. c_post_id c \<noteq> k) (comments s)\<rparr>)"
proof (cases "key_of drv ident")
  case None
  then show ?thesis
    by (simp add: DELETE_post_bad_key db_of_def)
next
  case key: (Some k)
  show ?thesis
  proof (cases "post_at s k")
    case None
    with key show ?thesis
      by (simp add: DELETE_post_absent db_of_def)
  next
    case (Some p)
    from DELETE_post_gate [OF key Some, of user] show ?thesis
      by (auto simp add: db_of_def)
  qed
qed

lemma DELETE_comment_db:
  "db_of (DELETE_comment drv user ident s) = s \<or>
   (\<exists>k. db_of (DELETE_comment drv user ident s) =
      s\<lparr>comments := filter (\<lambda>q. c_id q \<noteq> k) (comments s)\<rparr>)"
  by (auto simp add: DELETE_comment_def io_defs select_comment_owner_def delete_comment_def
        split: option.splits list.splits)

lemma POST_comment_db:
  "db_of (POST_comment drv now user ident request s) = s \<or>
   (\<exists>k t. k \<in> set (map p_id (forum_posts s)) \<and> actor_id user \<in> set (map u_id (users s)) \<and>
      db_of (POST_comment drv now user ident request s) =
      s\<lparr>comments := comments s @
                      [\<lparr>c_id = comment_seq s, c_content = t,
                        c_created_at = now, c_updated_at = None,
                        c_post_id = k, c_user_id = actor_id user\<rparr>],
                    comment_seq := comment_seq s + 1\<rparr>)"
  by (auto simp add: POST_comment_def io_defs insert_comment_def
        split: option.splits list.splits)

lemma POST_post_db:
  "db_of (POST_post drv now user request s) = s \<or>
   (\<exists>t c. actor_id user \<in> set (map u_id (users s)) \<and>
      db_of (POST_post drv now user request s) =
      s\<lparr>forum_posts := forum_posts s @
                 [\<lparr>p_id = post_seq s, p_title = t,
                   p_content = c, p_created_at = now,
                   p_updated_at = None, p_user_id = actor_id user\<rparr>],
               post_seq := post_seq s + 1\<rparr>)"
  by (auto simp add: POST_post_def io_defs insert_post_def
        split: option.splits list.splits)

text \<open>
  Every handler leaves a store that satisfies the schema in one that does: the keys stay
  keys, and every comment keeps referencing a live post.
\<close>

lemma handlers_preserve_schema:
  assumes "wf_store s"
  shows "wf_store (db_of (PUT_post drv now user ident request s))"
    and "wf_store (db_of (DELETE_post drv user ident s))"
    and "wf_store (db_of (POST_comment drv now user ident request s))"
    and "wf_store (db_of (PUT_comment drv now user ident request s))"
    and "wf_store (db_of (DELETE_comment drv user ident s))"
    and "wf_store (db_of (GET_posts s))"
    and "wf_store (db_of (POST_post drv now user request s))"
proof -
  show "wf_store (db_of (PUT_post drv now user ident request s))"
    using PUT_post_db [of drv now user ident request s] wf_update_posts [OF assms] assms
    by auto
  show "wf_store (db_of (DELETE_post drv user ident s))"
    using DELETE_post_db [of drv user ident s] wf_delete_post [OF assms] assms
    by auto
  show "wf_store (db_of (POST_comment drv now user ident request s))"
    using POST_comment_db [of drv now user ident request s] wf_insert_comment [OF assms] assms
    by auto
  show "wf_store (db_of (PUT_comment drv now user ident request s))"
    using PUT_comment_db [of drv now user ident request s] wf_update_comments [OF assms] assms
    by auto
  show "wf_store (db_of (DELETE_comment drv user ident s))"
    using DELETE_comment_db [of drv user ident s] wf_delete_comment [OF assms] assms
    by auto
  show "wf_store (db_of (GET_posts s))"
    using assms by (simp add: GET_posts_eq db_of_def)
  show "wf_store (db_of (POST_post drv now user request s))"
    using POST_post_db [of drv now user request s] wf_insert_post [OF assms] assms
    by auto
qed

section \<open>Concrete instances\<close>

lemmas demo_defs = demo_driver_def demo_store_def demo_post_def demo_comment_def
  actor_A_def actor_B_def actor_admin_def valid_post_body_def valid_comment_body_def
  post_at_def comment_at_def

section \<open>The ownership gate\<close>

text \<open>
  C1, as the spec words it, fails: the owner of a post sends a PUT whose body passes the
  validation and whose title the store rejects; the UPDATE is sent and throws, the answer is
  500 and the post is as it was, so the actor satisfies the ownership check and the mutation
  is not performed. The same holds for a comment.
\<close>

theorem ownership_gate_counterexample:
  "key_of demo_driver ''1'' = Some 1 \<and>
   post_at demo_store 1 = Some demo_post \<and>
   rejected_post_body \<noteq> Null \<and>
   \<not> falsy (get_prop rejected_post_body ''title'') \<and>
   \<not> falsy (get_prop rejected_post_body ''content'') \<and>
   actor_id actor_A = p_user_id demo_post \<and>
   status (resp_of (PUT_post demo_driver 99 actor_A ''1'' (Some rejected_post_body) demo_store)) = 500 \<and>
   db_of (PUT_post demo_driver 99 actor_A ''1'' (Some rejected_post_body) demo_store) = demo_store \<and>
   comment_at demo_store 1 = Some demo_comment \<and>
   rejected_comment_body \<noteq> Null \<and>
   \<not> falsy (get_prop rejected_comment_body ''content'') \<and>
   actor_id actor_B = c_user_id demo_comment \<and>
   status (resp_of (PUT_comment demo_driver 99 actor_B ''1'' (Some rejected_comment_body) demo_store)) = 500 \<and>
   db_of (PUT_comment demo_driver 99 actor_B ''1'' (Some rejected_comment_body) demo_store) = demo_store"
  by (simp add: demo_defs rejected_post_body_def rejected_comment_body_def PUT_post_def
        PUT_comment_def io_defs select_post_owner_def select_comment_owner_def update_post_def
        update_comment_def)

text \<open>
  C1, amended. For PUT and DELETE on a post and on a comment, when the target row exists
  (and, for PUT, the body is valid), the writing statement is sent to the store exactly when
  the actor's id is the row's \<open>user_id\<close> or the actor's role is \<^verbatim>\<open>admin\<close>. For such an
  actor a DELETE removes the row (and, for a post, its comments) and answers 200, and a PUT
  whose values the store accepts rewrites the row and answers 200 with it, while a PUT whose
  values the store rejects answers 500 and leaves the store as it was. An actor who is
  neither gets status 403 and the store stays as it was.
\<close>

theorem ownership_gate:
  assumes "key_of drv ident = Some k"
  shows
    "(post_at s k = Some p \<longrightarrow>
        (list_ex mutating (issued (DELETE_post drv user ident s))
           \<longleftrightarrow> actor_id user = p_user_id p \<or> role user = ''admin'') \<and>
        (actor_id user = p_user_id p \<or> role user = ''admin'' \<longrightarrow>
           resp_of (DELETE_post drv user ident s) = \<lparr>status = 200, body = Success\<rparr> \<and>
           db_of (DELETE_post drv user ident s) =
             s\<lparr>forum_posts := filter (\<lambda>q. p_id q \<noteq> k) (forum_posts s),
               comments := filter (\<lambda>q. c_post_id q \<noteq> k) (comments s)\<rparr>) \<and>
        (\<not> (actor_id user = p_user_id p \<or> role user = ''admin'') \<longrightarrow>
           status (resp_of (DELETE_post drv user ident s)) = 403 \<and>
           db_of (DELETE_post drv user ident s) = s) \<and>
        (request = Some b \<and> b \<noteq> Null \<and> b \<noteq> Undefined \<and>
         \<not> falsy (get_prop b ''title'') \<and> \<not> falsy (get_prop b ''content'') \<longrightarrow>
           (list_ex mutating (issued (PUT_post drv now user ident request s))
              \<longleftrightarrow> actor_id user = p_user_id p \<or> role user = ''admin'') \<and>
           (actor_id user = p_user_id p \<or> role user = ''admin'' \<longrightarrow>
              (text_of drv (get_prop b ''title'') = Some t \<and>
               text_of drv (get_prop b ''content'') = Some x \<longrightarrow>
                 resp_of (PUT_post drv now user ident request s) =
                   \<lparr>status = 200, body = UpdatedPost k t x (p_created_at p) (Some now)\<rparr> \<and>
                 db_of (PUT_post drv now user ident request s) =
                   s\<lparr>forum_posts :=
                       map (\<lambda>q. if p_id q = k
                                then q\<lparr>p_title := t, p_content := x, p_updated_at := Some now\<rparr>
                                else q) (forum_posts s)\<rparr>) \<and>
              (text_of drv (get_prop b ''title'') = None \<or>
               text_of drv (get_prop b ''content'') = None \<longrightarrow>
                 status (resp_of (PUT_post drv now user ident request s)) = 500 \<and>
                 db_of (PUT_post drv now user ident request s) = s)) \<and>
           (\<not> (actor_id user = p_user_id p \<or> role user = ''admin'') \<longrightarrow>
              status (resp_of (PUT_post drv now user ident request s)) = 403 \<and>
              db_of (PUT_post drv now user ident request s) = s))) \<and>
     (comment_at s k = Some c \<longrightarrow>
        (list_ex mutating (issued (DELETE_comment drv user ident s))
           \<longleftrightarrow> actor_id user = c_user_id c \<or> role user = ''admin'') \<and>
        (actor_id user = c_user_id c \<or> role user = ''admin'' \<longrightarrow>
           resp_of (DELETE_comment drv user ident s) = \<lparr>status = 200, body = Success\<rparr> \<and>
           db_of (DELETE_comment drv user ident s) =
             s\<lparr>comments := filter (\<lambda>q. c_id q \<noteq> k) (comments s)\<rparr>) \<and>
        (\<not> (actor_id user = c_user_id c \<or> role user = ''admin'') \<longrightarrow>
           status (resp_of (DELETE_comment drv user ident s)) = 403 \<and>
           db_of (DELETE_comment drv user ident s) = s) \<and>
        (request = Some b \<and> b \<noteq> Null \<and> b \<noteq> Undefined \<and>
         \<not> falsy (get_prop b ''content'') \<longrightarrow>
           (list_ex mutating (issued (PUT_comment drv now user ident request s))
              \<longleftrightarrow> actor_id user = c_user_id c \<or> role user = ''admin'') \<and>
           (actor_id user = c_user_id c \<or> role user = ''admin'' \<longrightarrow>
              (text_of drv (get_prop b ''content'') = Some t \<longrightarrow>
                 resp_of (PUT_comment drv now user ident request s) =
                   \<lparr>status = 200, body = UpdatedComment k t (c_created_at c) (Some now)\<rparr> \<and>
                 db_of (PUT_comment drv now user ident request s) =
                   s\<lparr>comments :=
                       map (\<lambda>q. if c_id q = k
                                then q\<lparr>c_content := t, c_updated_at := Some now\<rparr>
                                else q) (comments s)\<rparr>) \<and>
              (text_of drv (get_prop b ''content'') = None \<longrightarrow>
                 status (resp_of (PUT_comment drv now user ident request s)) = 500 \<and>
                 db_of (PUT_comment drv now user ident request s) = s)) \<and>
           (\<not> (actor_id user = c_user_id c \<or> role user = ''admin'') \<longrightarrow>
              status (resp_of (PUT_comment drv now user ident request s)) = 403 \<and>
              db_of (PUT_comment drv now user ident request s) = s)))"
proof (intro conjI impI)
  assume p: "post_at s k = Some p"
  note del = DELETE_post_gate [OF assms p, of user]
  show "list_ex mutating (issued (DELETE_post drv user ident s))
           \<longleftrightarrow> actor_id user = p_user_id p \<or> role user = ''admin''"
    by (simp add: del issued_def)
  {
    assume a: "actor_id user = p_user_id p \<or> role user = ''admin''"
    show "resp_of (DELETE_post drv user ident s) = \<lparr>status = 200, body = Success\<rparr>"
      using a by (simp add: del resp_of_def json_response_def)
    show "db_of (DELETE_post drv user ident s) =
             s\<lparr>forum_posts := filter (\<lambda>q. p_id q \<noteq> k) (forum_posts s),
               comments := filter (\<lambda>q. c_post_id q \<noteq> k) (comments s)\<rparr>"
      using a by (simp add: del db_of_def)
  }
  {
    assume n: "\<not> (actor_id user = p_user_id p \<or> role user = ''admin'')"
    show "status (resp_of (DELETE_post drv user ident s)) = 403"
      using n by (simp add: del resp_of_def json_response_def)
    show "db_of (DELETE_post drv user ident s) = s"
      using n by (simp add: del db_of_def)
  }
  assume "request = Some b \<and> b \<noteq> Null \<and> b \<noteq> Undefined \<and>
         \<not> falsy (get_prop b ''title'') \<and> \<not> falsy (get_prop b ''content'')"
  then have r: "request = Some b" and b: "\<not> falsy (get_prop b ''title'')"
    "\<not> falsy (get_prop b ''content'')" "b \<noteq> Null" "b \<noteq> Undefined"
    by simp_all
  note forbidden = PUT_post_forbidden [OF assms p b, of user now, folded r]
  note accepted = PUT_post_accepted [OF assms p b, of user _ _ now, folded r]
  note refused = PUT_post_refused [OF assms p b, of user now, folded r]
  show "list_ex mutating (issued (PUT_post drv now user ident request s))
           \<longleftrightarrow> actor_id user = p_user_id p \<or> role user = ''admin''"
  proof (cases "actor_id user = p_user_id p \<or> role user = ''admin''")
    case False
    then show ?thesis
      by (simp add: forbidden issued_def)
  next
    case True
    show ?thesis
    proof (cases "text_of drv (get_prop b ''title'') = None \<or>
               text_of drv (get_prop b ''content'') = None")
      case refuse: True
      from refused [OF True refuse] True show ?thesis
        by (simp add: issued_def)
    next
      case False
      then obtain t x where "text_of drv (get_prop b ''title'') = Some t"
        "text_of drv (get_prop b ''content'') = Some x"
        by auto
      from accepted [OF True this] True show ?thesis
        by (simp add: issued_def)
    qed
  qed
  {
    assume a: "actor_id user = p_user_id p \<or> role user = ''admin''"
    {
      assume "text_of drv (get_prop b ''title'') = Some t \<and>
               text_of drv (get_prop b ''content'') = Some x"
      then have tx: "text_of drv (get_prop b ''title'') = Some t"
        "text_of drv (get_prop b ''content'') = Some x"
        by simp_all
      show "resp_of (PUT_post drv now user ident request s) =
                   \<lparr>status = 200, body = UpdatedPost k t x (p_created_at p) (Some now)\<rparr>"
        using post_at_key [OF p]
        by (simp add: accepted [OF a tx] resp_of_def json_response_def returning_post_def
              set_post_def)
      show "db_of (PUT_post drv now user ident request s) =
                   s\<lparr>forum_posts :=
                       map (\<lambda>q. if p_id q = k
                                then q\<lparr>p_title := t, p_content := x, p_updated_at := Some now\<rparr>
                                else q) (forum_posts s)\<rparr>"
        by (simp add: accepted [OF a tx] db_of_def set_post_def)
    }
    assume refuse: "text_of drv (get_prop b ''title'') = None \<or>
               text_of drv (get_prop b ''content'') = None"
    show "status (resp_of (PUT_post drv now user ident request s)) = 500"
      by (simp add: refused [OF a refuse] resp_of_def json_response_def)
    show "db_of (PUT_post drv now user ident request s) = s"
      by (simp add: refused [OF a refuse] db_of_def)
  }
  assume n: "\<not> (actor_id user = p_user_id p \<or> role user = ''admin'')"
  show "status (resp_of (PUT_post drv now user ident request s)) = 403"
    by (simp add: forbidden [OF n] resp_of_def json_response_def)
  show "db_of (PUT_post drv now user ident request s) = s"
    by (simp add: forbidden [OF n] db_of_def)
next
  assume c: "comment_at s k = Some c"
  note del = DELETE_comment_gate [OF assms c, of user]
  show "list_ex mutating (issued (DELETE_comment drv user ident s))
           \<longleftrightarrow> actor_id user = c_user_id c \<or> role user = ''admin''"
    by (simp add: del issued_def)
  {
    assume a: "actor_id user = c_user_id c \<or> role user = ''admin''"
    show "resp_of (DELETE_comment drv user ident s) = \<lparr>status = 200, body = Success\<rparr>"
      using a by (simp add: del resp_of_def json_response_def)
    show "db_of (DELETE_comment drv user ident s) =
             s\<lparr>comments := filter (\<lambda>q. c_id q \<noteq> k) (comments s)\<rparr>"
      using a by (simp add: del db_of_def)
  }
  {
    assume n: "\<not> (actor_id user = c_user_id c \<or> role user = ''admin'')"
    show "status (resp_of (DELETE_comment drv user ident s)) = 403"
      using n by (simp add: del resp_of_def json_response_def)
    show "db_of (DELETE_comment drv user ident s) = s"
      using n by (simp add: del db_of_def)
  }
  assume "request = Some b \<and> b \<noteq> Null \<and> b \<noteq> Undefined \<and>
         \<not> falsy (get_prop b ''content'')"
  then have r: "request = Some b" and b:
    "\<not> falsy (get_prop b ''content'')" "b \<noteq> Null" "b \<noteq> Undefined"
    by simp_all
  note forbidden = PUT_comment_forbidden [OF assms c b, of user now, folded r]
  note accepted = PUT_comment_accepted [OF assms c b, of user _ now, folded r]
  note refused = PUT_comment_refused [OF assms c b, of user now, folded r]
  show "list_ex mutating (issued (PUT_comment drv now user ident request s))
           \<longleftrightarrow> actor_id user = c_user_id c \<or> role user = ''admin''"
  proof (cases "actor_id user = c_user_id c \<or> role user = ''admin''")
    case False
    then show ?thesis
      by (simp add: forbidden issued_def)
  next
    case True
    show ?thesis
    proof (cases "text_of drv (get_prop b ''content'')")
      case None
      from refused [OF True None] True show ?thesis
        by (simp add: issued_def)
    next
      case (Some t)
      from accepted [OF True Some] True show ?thesis
        by (simp add: issued_def)
    qed
  qed
  {
    assume a: "actor_id user = c_user_id c \<or> role user = ''admin''"
    {
      assume t: "text_of drv (get_prop b ''content'') = Some t"
      show "resp_of (PUT_comment drv now user ident request s) =
                   \<lparr>status = 200, body = UpdatedComment k t (c_created_at c) (Some now)\<rparr>"
        using comment_at_key [OF c]
        by (simp add: accepted [OF a t] resp_of_def json_response_def returning_comment_def
              set_comment_def)
      show "db_of (PUT_comment drv now user ident request s) =
                   s\<lparr>comments :=
                       map (\<lambda>q. if c_id q = k
                                then q\<lparr>c_content := t, c_updated_at := Some now\<rparr>
                                else q) (comments s)\<rparr>"
        by (simp add: accepted [OF a t] db_of_def set_comment_def)
    }
    assume refuse: "text_of drv (get_prop b ''content'') = None"
    show "status (resp_of (PUT_comment drv now user ident request s)) = 500"
      by (simp add: refused [OF a refuse] resp_of_def json_response_def)
    show "db_of (PUT_comment drv now user ident request s) = s"
      by (simp add: refused [OF a refuse] db_of_def)
  }
  assume n: "\<not> (actor_id user = c_user_id c \<or> role user = ''admin'')"
  show "status (resp_of (PUT_comment drv now user ident request s)) = 403"
    by (simp add: forbidden [OF n] resp_of_def json_response_def)
  show "db_of (PUT_comment drv now user ident request s) = s"
    by (simp add: forbidden [OF n] db_of_def)
qed

theorem ownership_gate_witness:
  "key_of demo_driver ''1'' = Some 1 \<and>
   post_at demo_store 1 = Some demo_post \<and>
   comment_at demo_store 1 = Some demo_comment \<and>
   valid_post_body \<noteq> Null \<and> valid_post_body \<noteq> Undefined \<and>
   \<not> falsy (get_prop valid_post_body ''title'') \<and>
   \<not> falsy (get_prop valid_post_body ''content'') \<and>
   text_of demo_driver (get_prop valid_post_body ''title'') = Some ''Storm'' \<and>
   text_of demo_driver (get_prop valid_post_body ''content'') = Some ''Wind and hail'' \<and>
   rejected_post_body \<noteq> Null \<and> rejected_post_body \<noteq> Undefined \<and>
   \<not> falsy (get_prop rejected_post_body ''title'') \<and>
   \<not> falsy (get_prop rejected_post_body ''content'') \<and>
   text_of demo_driver (get_prop rejected_post_body ''title'') = None \<and>
   valid_comment_body \<noteq> Null \<and> valid_comment_body \<noteq> Undefined \<and>
   \<not> falsy (get_prop valid_comment_body ''content'') \<and>
   text_of demo_driver (get_prop valid_comment_body ''content'') = Some ''nice'' \<and>
   actor_id actor_A = p_user_id demo_post \<and>
   \<not> (actor_id actor_B = p_user_id demo_post \<or> role actor_B = ''admin'') \<and>
   actor_id actor_B = c_user_id demo_comment \<and>
   \<not> (actor_id actor_A = c_user_id demo_comment \<or> role actor_A = ''admin'') \<and>
   list_ex mutating (issued (PUT_post demo_driver 99 actor_A ''1'' (Some valid_post_body) demo_store)) \<and>
   resp_of (PUT_post demo_driver 99 actor_A ''1'' (Some valid_post_body) demo_store) =
     \<lparr>status = 200, body = UpdatedPost 1 ''Storm'' ''Wind and hail'' (p_created_at demo_post) (Some 99)\<rparr> \<and>
   status (resp_of (PUT_post demo_driver 99 actor_A ''1'' (Some rejected_post_body) demo_store)) = 500 \<and>
   db_of (PUT_post demo_driver 99 actor_A ''1'' (Some rejected_post_body) demo_store) = demo_store \<and>
   resp_of (DELETE_post demo_driver actor_A ''1'' demo_store) = \<lparr>status = 200, body = Success\<rparr> \<and>
   \<not> list_ex mutating (issued (PUT_post demo_driver 99 actor_B ''1'' (Some valid_post_body) demo_store)) \<and>
   status (resp_of (PUT_post demo_driver 99 actor_B ''1'' (Some valid_post_body) demo_store)) = 403 \<and>
   db_of (PUT_post demo_driver 99 actor_B ''1'' (Some valid_post_body) demo_store) = demo_store \<and>
   status (resp_of (DELETE_post demo_driver actor_B ''1'' demo_store)) = 403 \<and>
   db_of (DELETE_post demo_driver actor_B ''1'' demo_store) = demo_store \<and>
   resp_of (PUT_comment demo_driver 99 actor_B ''1'' (Some valid_comment_body) demo_store) =
     \<lparr>status = 200, body = UpdatedComment 1 ''nice'' (c_created_at demo_comment) (Some 99)\<rparr> \<and>
   resp_of (DELETE_comment demo_driver actor_B ''1'' demo_store) = \<lparr>status = 200, body = Success\<rparr> \<and>
   status (resp_of (PUT_comment demo_driver 99 actor_A ''1'' (Some valid_comment_body) demo_store)) = 403 \<and>
   status (resp_of (DELETE_comment demo_driver actor_A ''1'' demo_store)) = 403"
proof -
  have k: "key_of demo_driver ''1'' = Some 1"
    by (simp add: demo_defs)
  have pb: "valid_post_body \<noteq> Null" "valid_post_body \<noteq> Undefined"
    "\<not> falsy (get_prop valid_post_body ''title'')"
    "\<not> falsy (get_prop valid_post_body ''content'')"
    and pt: "text_of demo_driver (get_prop valid_post_body ''title'') = Some ''Storm''"
    "text_of demo_driver (get_prop valid_post_body ''content'') = Some ''Wind and hail''"
    and rb: "rejected_post_body \<noteq> Null" "rejected_post_body \<noteq> Undefined"
    "\<not> falsy (get_prop rejected_post_body ''title'')"
    "\<not> falsy (get_prop rejected_post_body ''content'')"
    and rt: "text_of demo_driver (get_prop rejected_post_body ''title'') = None"
    and cb: "valid_comment_body \<noteq> Null" "valid_comment_body \<noteq> Undefined"
    "\<not> falsy (get_prop valid_comment_body ''content'')"
    and ct: "text_of demo_driver (get_prop valid_comment_body ''content'') = Some ''nice''"
    by (simp_all add: demo_defs rejected_post_body_def)
  have p: "post_at demo_store 1 = Some demo_post"
    and c: "comment_at demo_store 1 = Some demo_comment"
    by (simp_all add: demo_defs)
  have a: "actor_id actor_A = p_user_id demo_post"
    "\<not> (actor_id actor_B = p_user_id demo_post \<or> role actor_B = ''admin'')"
    "actor_id actor_B = c_user_id demo_comment"
    "\<not> (actor_id actor_A = c_user_id demo_comment \<or> role actor_A = ''admin'')"
    by (simp_all add: demo_defs)
  note owner = ownership_gate [OF k, where s = demo_store and p = demo_post and user = actor_A
      and request = "Some valid_post_body" and b = valid_post_body and now = 99
      and t = "''Storm''" and x = "''Wind and hail''", THEN conjunct1, rule_format, OF p]
  note owner_refused = ownership_gate [OF k, where s = demo_store and p = demo_post
      and user = actor_A and request = "Some rejected_post_body" and b = rejected_post_body
      and now = 99, THEN conjunct1, rule_format, OF p]
  note stranger = ownership_gate [OF k, where s = demo_store and p = demo_post
      and user = actor_B and request = "Some valid_post_body" and b = valid_post_body
      and now = 99, THEN conjunct1, rule_format, OF p]
  note commenter = ownership_gate [OF k, where s = demo_store and c = demo_comment
      and user = actor_B and request = "Some valid_comment_body" and b = valid_comment_body
      and now = 99 and t = "''nice''", THEN conjunct2, rule_format, OF c]
  note other = ownership_gate [OF k, where s = demo_store and c = demo_comment
      and user = actor_A and request = "Some valid_comment_body" and b = valid_comment_body
      and now = 99, THEN conjunct2, rule_format, OF c]
  from owner pb pt a(1)
  have 1: "list_ex mutating (issued (PUT_post demo_driver 99 actor_A ''1'' (Some valid_post_body) demo_store)) \<and>
   resp_of (PUT_post demo_driver 99 actor_A ''1'' (Some valid_post_body) demo_store) =
     \<lparr>status = 200, body = UpdatedPost 1 ''Storm'' ''Wind and hail'' (p_created_at demo_post) (Some 99)\<rparr> \<and>
   resp_of (DELETE_post demo_driver actor_A ''1'' demo_store) = \<lparr>status = 200, body = Success\<rparr>"
    by blast
  from owner_refused rb rt a(1)
  have 2: "status (resp_of (PUT_post demo_driver 99 actor_A ''1'' (Some rejected_post_body) demo_store)) = 500 \<and>
   db_of (PUT_post demo_driver 99 actor_A ''1'' (Some rejected_post_body) demo_store) = demo_store"
    by blast
  from stranger pb a(2)
  have 3: "\<not> list_ex mutating (issued (PUT_post demo_driver 99 actor_B ''1'' (Some valid_post_body) demo_store)) \<and>
   status (resp_of (PUT_post demo_driver 99 actor_B ''1'' (Some valid_post_body) demo_store)) = 403 \<and>
   db_of (PUT_post demo_driver 99 actor_B ''1'' (Some valid_post_body) demo_store) = demo_store \<and>
   status (resp_of (DELETE_post demo_driver actor_B ''1'' demo_store)) = 403 \<and>
   db_of (DELETE_post demo_driver actor_B ''1'' demo_store) = demo_store"
    by blast
  from commenter cb ct a(3)
  have 4: "resp_of (PUT_comment demo_driver 99 actor_B ''1'' (Some valid_comment_body) demo_store) =
     \<lparr>status = 200, body = UpdatedComment 1 ''nice'' (c_created_at demo_comment) (Some 99)\<rparr> \<and>
   resp_of (DELETE_comment demo_driver actor_B ''1'' demo_store) = \<lparr>status = 200, body = Success\<rparr>"
    by blast
  from other cb a(4)
  have 5: "status (resp_of (PUT_comment demo_driver 99 actor_A ''1'' (Some valid_comment_body) demo_store)) = 403 \<and>
   status (resp_of (DELETE_comment demo_driver actor_A ''1'' demo_store)) = 403"
    by blast
  from k p c pb pt rb rt cb ct a 1 2 3 4 5 show ?thesis
    by blast
qed

text \<open>
  C2, as the spec words it, fails: PUT validates the body before it looks the owner up, so a
  stranger who sends a body without a content gets 400, not 403, for a post as for a comment.
\<close>

theorem stranger_put_counterexample:
  "key_of demo_driver ''1'' = Some 1 \<and>
   post_at demo_store 1 = Some demo_post \<and>
   actor_id actor_B \<noteq> p_user_id demo_post \<and> role actor_B \<noteq> ''admin'' \<and>
   status (resp_of (PUT_post demo_driver 99 actor_B ''1''
     (Some (Obj [(''title'', Str ''Rain'')])) demo_store)) = 400 \<and>
   comment_at demo_store 1 = Some demo_comment \<and>
   actor_id actor_A \<noteq> c_user_id demo_comment \<and> role actor_A \<noteq> ''admin'' \<and>
   status (resp_of (PUT_comment demo_driver 99 actor_A ''1''
     (Some (Obj [(''content'', Str '''')])) demo_store)) = 400"
  by (simp add: demo_defs PUT_post_def PUT_comment_def io_defs)

text \<open>
  C2, amended. For an actor who is neither the creator of an existing post or comment nor an
  admin, DELETE answers 403, and PUT answers 403 for every payload whose required fields are
  present and non-empty; PUT answers 400 when a required field is missing or empty, and 500
  when the body is not JSON or is \<^verbatim>\<open>null\<close>.
\<close>

theorem stranger_forbidden:
  assumes "key_of drv ident = Some k" and "role user \<noteq> ''admin''"
  shows
    "(post_at s k = Some p \<and> actor_id user \<noteq> p_user_id p \<longrightarrow>
        status (resp_of (DELETE_post drv user ident s)) = 403 \<and>
        status (resp_of (PUT_post drv now user ident request s)) =
          (case request of
             None \<Rightarrow> 500
           | Some b \<Rightarrow>
               if b = Null \<or> b = Undefined then 500
               else if falsy (get_prop b ''title'') \<or> falsy (get_prop b ''content'') then 400
               else 403)) \<and>
     (comment_at s k = Some c \<and> actor_id user \<noteq> c_user_id c \<longrightarrow>
        status (resp_of (DELETE_comment drv user ident s)) = 403 \<and>
        status (resp_of (PUT_comment drv now user ident request s)) =
          (case request of
             None \<Rightarrow> 500
           | Some b \<Rightarrow>
               if b = Null \<or> b = Undefined then 500
               else if falsy (get_prop b ''content'') then 400
               else 403))"
proof (intro conjI impI)
  assume "post_at s k = Some p \<and> actor_id user \<noteq> p_user_id p"
  then have p: "post_at s k = Some p" and n: "actor_id user \<noteq> p_user_id p"
    by simp_all
  show "status (resp_of (DELETE_post drv user ident s)) = 403"
    using n assms(2) DELETE_post_gate [OF assms(1) p, of user]
    by (simp add: resp_of_def status_json_response)
  show "status (resp_of (PUT_post drv now user ident request s)) =
          (case request of
             None \<Rightarrow> 500
           | Some b \<Rightarrow>
               if b = Null \<or> b = Undefined then 500
               else if falsy (get_prop b ''title'') \<or> falsy (get_prop b ''content'') then 400
               else 403)"
  proof (cases request)
    case None
    then show ?thesis
      by (simp add: PUT_post_unreadable resp_of_def status_json_response)
  next
    case (Some b)
    consider "b = Null \<or> b = Undefined"
      | "b \<noteq> Null" "b \<noteq> Undefined" "falsy (get_prop b ''title'') \<or> falsy (get_prop b ''content'')"
      | "b \<noteq> Null" "b \<noteq> Undefined" "\<not> falsy (get_prop b ''title'')" "\<not> falsy (get_prop b ''content'')"
      by blast
    then show ?thesis
    proof cases
      case 1
      with Some show ?thesis
        by (auto simp add: PUT_post_unreadable resp_of_def status_json_response)
    next
      case 2
      with Some show ?thesis
        by (simp add: PUT_post_invalid resp_of_def status_json_response)
    next
      case 3
      from n assms(2) have "\<not> (actor_id user = p_user_id p \<or> role user = ''admin'')"
        by simp
      from PUT_post_forbidden [OF assms(1) p 3(3,4,1,2) this, of now] Some 3
      show ?thesis
        by (simp add: resp_of_def status_json_response)
    qed
  qed
next
  assume "comment_at s k = Some c \<and> actor_id user \<noteq> c_user_id c"
  then have c: "comment_at s k = Some c" and n: "actor_id user \<noteq> c_user_id c"
    by simp_all
  show "status (resp_of (DELETE_comment drv user ident s)) = 403"
    using n assms(2) DELETE_comment_gate [OF assms(1) c, of user]
    by (simp add: resp_of_def status_json_response)
  show "status (resp_of (PUT_comment drv now user ident request s)) =
          (case request of
             None \<Rightarrow> 500
           | Some b \<Rightarrow>
               if b = Null \<or> b = Undefined then 500
               else if falsy (get_prop b ''content'') then 400
               else 403)"
  proof (cases request)
    case None
    then show ?thesis
      by (simp add: PUT_comment_unreadable resp_of_def status_json_response)
  next
    case (Some b)
    consider "b = Null \<or> b = Undefined"
      | "b \<noteq> Null" "b \<noteq> Undefined" "falsy (get_prop b ''content'')"
      | "b \<noteq> Null" "b \<noteq> Undefined" "\<not> falsy (get_prop b ''content'')"
      by blast
    then show ?thesis
    proof cases
      case 1
      with Some show ?thesis
        by (auto simp add: PUT_comment_unreadable resp_of_def status_json_response)
    next
      case 2
      with Some show ?thesis
        by (simp add: PUT_comment_invalid resp_of_def status_json_response)
    next
      case 3
      from n assms(2) have "\<not> (actor_id user = c_user_id c \<or> role user = ''admin'')"
        by simp
      from PUT_comment_forbidden [OF assms(1) c 3(3,1,2) this, of now] Some 3
      show ?thesis
        by (simp add: resp_of_def status_json_response)
    qed
  qed
qed

theorem stranger_forbidden_witness:
  "key_of demo_driver ''1'' = Some 1 \<and>
   role actor_B \<noteq> ''admin'' \<and> role actor_A \<noteq> ''admin'' \<and>
   post_at demo_store 1 = Some demo_post \<and> actor_id actor_B \<noteq> p_user_id demo_post \<and>
   status (resp_of (DELETE_post demo_driver actor_B ''1'' demo_store)) = 403 \<and>
   status (resp_of (PUT_post demo_driver 99 actor_B ''1'' (Some valid_post_body) demo_store)) = 403 \<and>
   comment_at demo_store 1 = Some demo_comment \<and> actor_id actor_A \<noteq> c_user_id demo_comment \<and>
   status (resp_of (DELETE_comment demo_driver actor_A ''1'' demo_store)) = 403 \<and>
   status (resp_of (PUT_comment demo_driver 99 actor_A ''1'' (Some valid_comment_body) demo_store)) = 403"
proof -
  have k: "key_of demo_driver ''1'' = Some 1"
    and r: "role actor_B \<noteq> ''admin''" "role actor_A \<noteq> ''admin''"
    and p: "post_at demo_store 1 = Some demo_post"
    and c: "comment_at demo_store 1 = Some demo_comment"
    and a: "actor_id actor_B \<noteq> p_user_id demo_post" "actor_id actor_A \<noteq> c_user_id demo_comment"
    by (simp_all add: demo_defs)
  from stranger_forbidden [OF k r(1), where s = demo_store and p = demo_post and now = 99
      and request = "Some valid_post_body"] p a
  have "status (resp_of (DELETE_post demo_driver actor_B ''1'' demo_store)) = 403 \<and>
   status (resp_of (PUT_post demo_driver 99 actor_B ''1'' (Some valid_post_body) demo_store)) = 403"
    by (simp add: valid_post_body_def)
  moreover
  from stranger_forbidden [OF k r(2), where s = demo_store and c = demo_comment and now = 99
      and request = "Some valid_comment_body"] c a
  have "status (resp_of (DELETE_comment demo_driver actor_A ''1'' demo_store)) = 403 \<and>
   status (resp_of (PUT_comment demo_driver 99 actor_A ''1'' (Some valid_comment_body) demo_store)) = 403"
    by (simp add: valid_comment_body_def)
  ultimately show ?thesis
    using k r p c a by blast
qed

section \<open>Deleting\<close>

text \<open>
  C3. When the post exists and the actor is its owner or an admin, DELETE on the post sends
  the owner lookup, then the deletion of every comment whose \<open>post_id\<close> is the post's id,
  then the deletion of the post row, and answers 200 with \<^verbatim>\<open>{success: true}\<close>; the store
  reached is the one the two deletions give in that order, and in it no comment references
  the post and the post is gone, so that a listing taken next has no row for it.
\<close>

theorem delete_post_cascade:
  assumes "key_of drv ident = Some k" and "post_at s k = Some p"
    and "actor_id user = p_user_id p \<or> role user = ''admin''"
  shows "issued (DELETE_post drv user ident s) =
           [SelectPostOwner ident, DeleteCommentsOfPost ident, DeletePost ident] \<and>
         resp_of (DELETE_post drv user ident s) = \<lparr>status = 200, body = Success\<rparr> \<and>
         db_of (DELETE_post drv user ident s) =
           fst (snd (delete_post drv ident (fst (snd (delete_comments_of_post drv ident s))))) \<and>
         comments (db_of (DELETE_post drv user ident s)) =
           filter (\<lambda>c. c_post_id c \<noteq> k) (comments s) \<and>
         forum_posts (db_of (DELETE_post drv user ident s)) =
           filter (\<lambda>q. p_id q \<noteq> k) (forum_posts s) \<and>
         users (db_of (DELETE_post drv user ident s)) = users s \<and>
         comments_of (db_of (DELETE_post drv user ident s)) k = [] \<and>
         post_at (db_of (DELETE_post drv user ident s)) k = None \<and>
         (\<exists>rows. resp_of (GET_posts (db_of (DELETE_post drv user ident s))) =
                   \<lparr>status = 200, body = Listing rows\<rparr> \<and>
                 k \<notin> set (map lp_id rows))"
proof -
  let ?s' = "db_of (DELETE_post drv user ident s)"
  have store: "issued (DELETE_post drv user ident s) =
           [SelectPostOwner ident, DeleteCommentsOfPost ident, DeletePost ident] \<and>
         resp_of (DELETE_post drv user ident s) = \<lparr>status = 200, body = Success\<rparr> \<and>
         ?s' = fst (snd (delete_post drv ident (fst (snd (delete_comments_of_post drv ident s))))) \<and>
         comments ?s' = filter (\<lambda>c. c_post_id c \<noteq> k) (comments s) \<and>
         forum_posts ?s' = filter (\<lambda>q. p_id q \<noteq> k) (forum_posts s) \<and>
         users ?s' = users s \<and>
         comments_of ?s' k = [] \<and>
         post_at ?s' k = None"
    using assms(1,3) DELETE_post_gate [OF assms(1,2), of user]
    by (simp add: issued_def resp_of_def db_of_def json_response_def comments_of_def post_at_def
          delete_post_def delete_comments_of_post_def no_reference_left find_after_filter_neg)
  from listed_ids [of ?s'] obtain rows
    where rows: "resp_of (GET_posts ?s') = \<lparr>status = 200, body = Listing rows\<rparr>"
      and sub: "set (map lp_id rows) \<subseteq> set (map p_id (forum_posts ?s'))"
    by blast
  from store have "post_at ?s' k = None"
    by blast
  then have "k \<notin> set (map p_id (forum_posts ?s'))"
    by (rule iffD1 [OF post_at_None_iff])
  with sub have "k \<notin> set (map lp_id rows)"
    by blast
  with rows have "\<exists>rows. resp_of (GET_posts ?s') = \<lparr>status = 200, body = Listing rows\<rparr> \<and>
                 k \<notin> set (map lp_id rows)"
    by blast
  with store show ?thesis
    by blast
qed

theorem delete_post_cascade_witness:
  "key_of demo_driver ''1'' = Some 1 \<and> post_at demo_store 1 = Some demo_post \<and>
   (actor_id actor_A = p_user_id demo_post \<or> role actor_A = ''admin'') \<and>
   comments_of demo_store 1 = [demo_comment] \<and>
   issued (DELETE_post demo_driver actor_A ''1'' demo_store) =
     [SelectPostOwner ''1'', DeleteCommentsOfPost ''1'', DeletePost ''1''] \<and>
   comments_of (db_of (DELETE_post demo_driver actor_A ''1'' demo_store)) 1 = [] \<and>
   post_at (db_of (DELETE_post demo_driver actor_A ''1'' demo_store)) 1 = None"
proof -
  have k: "key_of demo_driver ''1'' = Some 1"
    and p: "post_at demo_store 1 = Some demo_post"
    and a: "actor_id actor_A = p_user_id demo_post \<or> role actor_A = ''admin''"
    and c: "comments_of demo_store 1 = [demo_comment]"
    by (simp_all add: demo_defs comments_of_def)
  from delete_post_cascade [OF k p a] show ?thesis
    using k p a c by blast
qed

text \<open>
  C5. Once a DELETE on a post, or on a comment, has answered 200, a second DELETE on the same
  id, by whatever actor, answers 404.
\<close>

theorem delete_twice_not_found:
  "(status (resp_of (DELETE_post drv user ident s)) = 200 \<longrightarrow>
      status (resp_of (DELETE_post drv user' ident (db_of (DELETE_post drv user ident s)))) = 404) \<and>
   (status (resp_of (DELETE_comment drv user ident s)) = 200 \<longrightarrow>
      status (resp_of (DELETE_comment drv user' ident (db_of (DELETE_comment drv user ident s)))) = 404)"
proof (intro conjI impI)
  assume ok: "status (resp_of (DELETE_post drv user ident s)) = 200"
  then obtain k p where key: "key_of drv ident = Some k" and post: "post_at s k = Some p"
    and auth: "actor_id user = p_user_id p \<or> role user = ''admin''"
    by (rule DELETE_post_200)
  have "post_at (db_of (DELETE_post drv user ident s)) k = None"
    using auth DELETE_post_gate [OF key post, of user]
    by (simp add: db_of_def post_at_def find_after_filter_neg)
  from DELETE_post_absent [OF key this, of user']
  show "status (resp_of (DELETE_post drv user' ident (db_of (DELETE_post drv user ident s)))) = 404"
    by (simp add: resp_of_def status_json_response)
next
  assume ok: "status (resp_of (DELETE_comment drv user ident s)) = 200"
  then obtain k c where key: "key_of drv ident = Some k" and com: "comment_at s k = Some c"
    and auth: "actor_id user = c_user_id c \<or> role user = ''admin''"
    by (rule DELETE_comment_200)
  have "comment_at (db_of (DELETE_comment drv user ident s)) k = None"
    using auth DELETE_comment_gate [OF key com, of user]
    by (simp add: db_of_def comment_at_def find_after_filter_neg)
  from DELETE_comment_absent [OF key this, of user']
  show "status (resp_of (DELETE_comment drv user' ident (db_of (DELETE_comment drv user ident s)))) = 404"
    by (simp add: resp_of_def status_json_response)
qed

theorem delete_twice_not_found_witness:
  "status (resp_of (DELETE_post demo_driver actor_A ''1'' demo_store)) = 200 \<and>
   status (resp_of (DELETE_post demo_driver actor_admin ''1''
     (db_of (DELETE_post demo_driver actor_A ''1'' demo_store)))) = 404 \<and>
   status (resp_of (DELETE_comment demo_driver actor_B ''1'' demo_store)) = 200 \<and>
   status (resp_of (DELETE_comment demo_driver actor_admin ''1''
     (db_of (DELETE_comment demo_driver actor_B ''1'' demo_store)))) = 404"
proof -
  have k: "key_of demo_driver ''1'' = Some 1"
    by (simp add: demo_defs)
  have "post_at demo_store 1 = Some demo_post"
    by (simp add: demo_defs)
  from DELETE_post_gate [OF k this, of actor_A]
  have p: "status (resp_of (DELETE_post demo_driver actor_A ''1'' demo_store)) = 200"
    by (simp add: demo_defs resp_of_def status_json_response)
  have "comment_at demo_store 1 = Some demo_comment"
    by (simp add: demo_defs)
  from DELETE_comment_gate [OF k this, of actor_B]
  have c: "status (resp_of (DELETE_comment demo_driver actor_B ''1'' demo_store)) = 200"
    by (simp add: demo_defs resp_of_def status_json_response)
  from delete_twice_not_found [of demo_driver actor_A "''1''" demo_store actor_admin]
    delete_twice_not_found [of demo_driver actor_B "''1''" demo_store actor_admin]
  show ?thesis
    using p c by blast
qed

section \<open>Validation\<close>

text \<open>
  C4, as the spec words it, fails: a request whose body is \<^verbatim>\<open>null\<close>, or is not JSON, has
  no title and no content, and the handler throws before it validates and answers 500.
\<close>

theorem create_post_unreadable_counterexample:
  "get_prop Null ''title'' = Undefined \<and> get_prop Null ''content'' = Undefined \<and>
   status (resp_of (POST_post demo_driver 99 actor_A (Some Null) demo_store)) = 500 \<and>
   status (resp_of (POST_post demo_driver 99 actor_A None demo_store)) = 500"
  by (simp add: POST_post_def io_defs)

text \<open>
  C4, amended. A create-post request whose body is JSON other than \<^verbatim>\<open>null\<close> and whose
  title or content is missing or the empty string (or any other value that \<^verbatim>\<open>!\<close> negates
  to true) gets status 400; a request whose body is not JSON or is \<^verbatim>\<open>null\<close> gets status
  500; in both cases no statement is sent and the store stays as it was. Whenever the handler
  sends a statement, it is the insert, and title and content are both present and non-empty.
\<close>

theorem create_post_validation:
  "(request = None \<or> request = Some Null \<or> request = Some Undefined \<longrightarrow>
        status (resp_of (POST_post drv now user request s)) = 500 \<and>
        db_of (POST_post drv now user request s) = s \<and>
        issued (POST_post drv now user request s) = []) \<and>
   (request = Some b \<and> b \<noteq> Null \<and> b \<noteq> Undefined \<and>
      (falsy (get_prop b ''title'') \<or> falsy (get_prop b ''content'')) \<longrightarrow>
        status (resp_of (POST_post drv now user request s)) = 400 \<and>
        db_of (POST_post drv now user request s) = s \<and>
        issued (POST_post drv now user request s) = []) \<and>
   (issued (POST_post drv now user request s) \<noteq> [] \<longrightarrow>
      (\<exists>b'. request = Some b' \<and>
         get_prop b' ''title'' \<noteq> Undefined \<and> get_prop b' ''title'' \<noteq> Str [] \<and>
         get_prop b' ''content'' \<noteq> Undefined \<and> get_prop b' ''content'' \<noteq> Str [] \<and>
         \<not> falsy (get_prop b' ''title'') \<and> \<not> falsy (get_prop b' ''content'') \<and>
         issued (POST_post drv now user request s) =
           [InsertPost (actor_id user) (get_prop b' ''title'') (get_prop b' ''content'') now]))"
proof (intro conjI impI)
  assume "request = None \<or> request = Some Null \<or> request = Some Undefined"
  then have "POST_post drv now user request s =
      (json_response (Error ''Failed to create post'') 500, s, [])"
    by (rule POST_post_unreadable)
  then show "status (resp_of (POST_post drv now user request s)) = 500"
    and "db_of (POST_post drv now user request s) = s"
    and "issued (POST_post drv now user request s) = []"
    by (simp_all add: resp_of_def db_of_def issued_def status_json_response)
next
  assume "request = Some b \<and> b \<noteq> Null \<and> b \<noteq> Undefined \<and>
      (falsy (get_prop b ''title'') \<or> falsy (get_prop b ''content''))"
  then have "POST_post drv now user request s =
      (json_response (Error ''Missing title or content'') 400, s, [])"
    by (simp add: POST_post_invalid)
  then show "status (resp_of (POST_post drv now user request s)) = 400"
    and "db_of (POST_post drv now user request s) = s"
    and "issued (POST_post drv now user request s) = []"
    by (simp_all add: resp_of_def db_of_def issued_def status_json_response)
next
  assume sent: "issued (POST_post drv now user request s) \<noteq> []"
  then obtain b' where r: "request = Some b'"
    by (cases request) (auto simp add: POST_post_unreadable issued_def)
  have n: "b' \<noteq> Null" "b' \<noteq> Undefined"
    using sent r by (auto simp add: POST_post_unreadable issued_def)
  have t: "\<not> falsy (get_prop b' ''title'')" and c: "\<not> falsy (get_prop b' ''content'')"
    using sent r n by (auto simp add: POST_post_invalid issued_def)
  from t c have "get_prop b' ''title'' \<noteq> Undefined" "get_prop b' ''title'' \<noteq> Str []"
    "get_prop b' ''content'' \<noteq> Undefined" "get_prop b' ''content'' \<noteq> Str []"
    by auto
  with r t c POST_post_valid_issued [OF n t c, of drv now user s]
  show "\<exists>b'. request = Some b' \<and>
         get_prop b' ''title'' \<noteq> Undefined \<and> get_prop b' ''title'' \<noteq> Str [] \<and>
         get_prop b' ''content'' \<noteq> Undefined \<and> get_prop b' ''content'' \<noteq> Str [] \<and>
         \<not> falsy (get_prop b' ''title'') \<and> \<not> falsy (get_prop b' ''content'') \<and>
         issued (POST_post drv now user request s) =
           [InsertPost (actor_id user) (get_prop b' ''title'') (get_prop b' ''content'') now]"
    by blast
qed

theorem create_post_validation_witness:
  "status (resp_of (POST_post demo_driver 99 actor_A (Some Null) demo_store)) = 500 \<and>
   db_of (POST_post demo_driver 99 actor_A (Some Null) demo_store) = demo_store \<and>
   issued (POST_post demo_driver 99 actor_A (Some Null) demo_store) = [] \<and>
   status (resp_of (POST_post demo_driver 99 actor_A None demo_store)) = 500 \<and>
   Obj [(''title'', Str []), (''content'', Str ''Heavy rain today'')] \<noteq> Null \<and>
   Obj [(''title'', Str []), (''content'', Str ''Heavy rain today'')] \<noteq> Undefined \<and>
   falsy (get_prop (Obj [(''title'', Str []), (''content'', Str ''Heavy rain today'')]) ''title'') \<and>
   status (resp_of (POST_post demo_driver 99 actor_A
     (Some (Obj [(''title'', Str []), (''content'', Str ''Heavy rain today'')])) demo_store)) = 400 \<and>
   db_of (POST_post demo_driver 99 actor_A
     (Some (Obj [(''title'', Str []), (''content'', Str ''Heavy rain today'')])) demo_store) = demo_store \<and>
   issued (POST_post demo_driver 99 actor_A
     (Some (Obj [(''title'', Str []), (''content'', Str ''Heavy rain today'')])) demo_store) = [] \<and>
   issued (POST_post demo_driver 99 actor_A (Some valid_post_body) demo_store) \<noteq> [] \<and>
   issued (POST_post demo_driver 99 actor_A (Some valid_post_body) demo_store) =
     [InsertPost 1 (Str ''Storm'') (Str ''Wind and hail'') 99]"
proof -
  have h: "Obj [(''title'', Str []), (''content'', Str ''Heavy rain today'')] \<noteq> Null"
    "Obj [(''title'', Str []), (''content'', Str ''Heavy rain today'')] \<noteq> Undefined"
    "falsy (get_prop (Obj [(''title'', Str []), (''content'', Str ''Heavy rain today'')]) ''title'')"
    by simp_all
  have i: "issued (POST_post demo_driver 99 actor_A (Some valid_post_body) demo_store) \<noteq> []"
    by (simp add: POST_post_valid_issued valid_post_body_def)
  from create_post_validation [of "Some Null" demo_driver 99 actor_A demo_store]
  have 1: "status (resp_of (POST_post demo_driver 99 actor_A (Some Null) demo_store)) = 500 \<and>
   db_of (POST_post demo_driver 99 actor_A (Some Null) demo_store) = demo_store \<and>
   issued (POST_post demo_driver 99 actor_A (Some Null) demo_store) = []"
    by blast
  from create_post_validation [of None demo_driver 99 actor_A demo_store]
  have 2: "status (resp_of (POST_post demo_driver 99 actor_A None demo_store)) = 500"
    by blast
  from create_post_validation
    [of "Some (Obj [(''title'', Str []), (''content'', Str ''Heavy rain today'')])"
      demo_driver 99 actor_A demo_store
      "Obj [(''title'', Str []), (''content'', Str ''Heavy rain today'')]"] h
  have 3: "status (resp_of (POST_post demo_driver 99 actor_A
     (Some (Obj [(''title'', Str []), (''content'', Str ''Heavy rain today'')])) demo_store)) = 400 \<and>
   db_of (POST_post demo_driver 99 actor_A
     (Some (Obj [(''title'', Str []), (''content'', Str ''Heavy rain today'')])) demo_store) = demo_store \<and>
   issued (POST_post demo_driver 99 actor_A
     (Some (Obj [(''title'', Str []), (''content'', Str ''Heavy rain today'')])) demo_store) = []"
    by blast
  from create_post_validation [of "Some valid_post_body" demo_driver 99 actor_A demo_store] i
  have 4: "issued (POST_post demo_driver 99 actor_A (Some valid_post_body) demo_store) =
     [InsertPost 1 (Str ''Storm'') (Str ''Wind and hail'') 99]"
    by (auto simp add: demo_defs)
  from h i 1 2 3 4 show ?thesis by blast
qed

text \<open>
  C10, as stated, fails in the same way: a PUT whose body is \<^verbatim>\<open>null\<close>, or is not JSON,
  has no required field, and both handlers throw before they validate and answer 500.
\<close>

theorem put_unreadable_counterexample:
  "get_prop Null ''title'' = Undefined \<and> get_prop Null ''content'' = Undefined \<and>
   status (resp_of (PUT_post demo_driver 99 actor_B ''999'' (Some Null) demo_store)) = 500 \<and>
   status (resp_of (PUT_post demo_driver 99 actor_B ''999'' None demo_store)) = 500 \<and>
   status (resp_of (PUT_comment demo_driver 99 actor_B ''999'' (Some Null) demo_store)) = 500 \<and>
   status (resp_of (PUT_comment demo_driver 99 actor_B ''999'' None demo_store)) = 500"
  by (simp add: PUT_post_def PUT_comment_def io_defs)

text \<open>
  C10, amended. In PUT on a post and PUT on a comment the body is read and validated before
  the existence and ownership checks: when the body is JSON other than \<^verbatim>\<open>null\<close> and a
  required field is missing or empty the answer is 400, and when the body is not JSON or is
  \<^verbatim>\<open>null\<close> the answer is 500, whatever the path id, the actor and the store are (so also
  when the target does not exist or the actor is a stranger); in both cases no statement has
  been sent and the store is as it was.
\<close>

theorem validation_precedes_lookup:
  "(request = None \<or> request = Some Null \<or> request = Some Undefined \<longrightarrow>
      status (resp_of (PUT_post drv now user ident request s)) = 500 \<and>
      issued (PUT_post drv now user ident request s) = [] \<and>
      db_of (PUT_post drv now user ident request s) = s \<and>
      status (resp_of (PUT_comment drv now user ident request s)) = 500 \<and>
      issued (PUT_comment drv now user ident request s) = [] \<and>
      db_of (PUT_comment drv now user ident request s) = s) \<and>
   (request = Some b \<and> b \<noteq> Null \<and> b \<noteq> Undefined \<longrightarrow>
      (falsy (get_prop b ''title'') \<or> falsy (get_prop b ''content'') \<longrightarrow>
         status (resp_of (PUT_post drv now user ident request s)) = 400 \<and>
         issued (PUT_post drv now user ident request s) = [] \<and>
         db_of (PUT_post drv now user ident request s) = s) \<and>
      (falsy (get_prop b ''content'') \<longrightarrow>
         status (resp_of (PUT_comment drv now user ident request s)) = 400 \<and>
         issued (PUT_comment drv now user ident request s) = [] \<and>
         db_of (PUT_comment drv now user ident request s) = s))"
proof (intro conjI impI)
  assume u: "request = None \<or> request = Some Null \<or> request = Some Undefined"
  note post = PUT_post_unreadable [OF u, of drv now user ident s]
  note comment = PUT_comment_unreadable [OF u, of drv now user ident s]
  show "status (resp_of (PUT_post drv now user ident request s)) = 500"
    "issued (PUT_post drv now user ident request s) = []"
    "db_of (PUT_post drv now user ident request s) = s"
    by (simp_all add: post resp_of_def db_of_def issued_def status_json_response)
  show "status (resp_of (PUT_comment drv now user ident request s)) = 500"
    "issued (PUT_comment drv now user ident request s) = []"
    "db_of (PUT_comment drv now user ident request s) = s"
    by (simp_all add: comment resp_of_def db_of_def issued_def status_json_response)
next
  assume "request = Some b \<and> b \<noteq> Null \<and> b \<noteq> Undefined"
  then have r: "request = Some b" and n: "b \<noteq> Null" "b \<noteq> Undefined"
    by simp_all
  {
    assume "falsy (get_prop b ''title'') \<or> falsy (get_prop b ''content'')"
    note post = PUT_post_invalid [OF n this, of drv now user ident s, folded r]
    show "status (resp_of (PUT_post drv now user ident request s)) = 400"
      "issued (PUT_post drv now user ident request s) = []"
      "db_of (PUT_post drv now user ident request s) = s"
      by (simp_all add: post resp_of_def db_of_def issued_def status_json_response)
  }
  assume "falsy (get_prop b ''content'')"
  note comment = PUT_comment_invalid [OF n this, of drv now user ident s, folded r]
  show "status (resp_of (PUT_comment drv now user ident request s)) = 400"
    "issued (PUT_comment drv now user ident request s) = []"
    "db_of (PUT_comment drv now user ident request s) = s"
    by (simp_all add: comment resp_of_def db_of_def issued_def status_json_response)
qed

theorem validation_precedes_lookup_witness:
  "status (resp_of (PUT_post demo_driver 99 actor_B ''999'' (Some Null) demo_store)) = 500 \<and>
   issued (PUT_post demo_driver 99 actor_B ''999'' (Some Null) demo_store) = [] \<and>
   status (resp_of (PUT_comment demo_driver 99 actor_B ''999'' None demo_store)) = 500 \<and>
   issued (PUT_comment demo_driver 99 actor_B ''999'' None demo_store) = [] \<and>
   Obj [(''title'', Str ''Rain'')] \<noteq> Null \<and> Obj [(''title'', Str ''Rain'')] \<noteq> Undefined \<and>
   falsy (get_prop (Obj [(''title'', Str ''Rain'')]) ''content'') \<and>
   post_at demo_store 999 = None \<and> comment_at demo_store 999 = None \<and>
   key_of demo_driver ''999'' = Some 999 \<and>
   status (resp_of (PUT_post demo_driver 99 actor_B ''999'' (Some (Obj [(''title'', Str ''Rain'')])) demo_store)) = 400 \<and>
   issued (PUT_post demo_driver 99 actor_B ''999'' (Some (Obj [(''title'', Str ''Rain'')])) demo_store) = [] \<and>
   status (resp_of (PUT_comment demo_driver 99 actor_B ''999'' (Some (Obj [(''title'', Str ''Rain'')])) demo_store)) = 400 \<and>
   issued (PUT_comment demo_driver 99 actor_B ''999'' (Some (Obj [(''title'', Str ''Rain'')])) demo_store) = []"
proof -
  have h: "Obj [(''title'', Str ''Rain'')] \<noteq> Null" "Obj [(''title'', Str ''Rain'')] \<noteq> Undefined"
    "falsy (get_prop (Obj [(''title'', Str ''Rain'')]) ''content'')"
    by simp_all
  have a: "post_at demo_store 999 = None" "comment_at demo_store 999 = None"
    "key_of demo_driver ''999'' = Some 999"
    by (simp_all add: demo_defs)
  from validation_precedes_lookup [of "Some Null" demo_driver 99 actor_B "''999''" demo_store]
  have 1: "status (resp_of (PUT_post demo_driver 99 actor_B ''999'' (Some Null) demo_store)) = 500 \<and>
   issued (PUT_post demo_driver 99 actor_B ''999'' (Some Null) demo_store) = []"
    by blast
  from validation_precedes_lookup [of None demo_driver 99 actor_B "''999''" demo_store]
  have 2: "status (resp_of (PUT_comment demo_driver 99 actor_B ''999'' None demo_store)) = 500 \<and>
   issued (PUT_comment demo_driver 99 actor_B ''999'' None demo_store) = []"
    by blast
  from validation_precedes_lookup [of "Some (Obj [(''title'', Str ''Rain'')])" demo_driver 99
      actor_B "''999''" demo_store "Obj [(''title'', Str ''Rain'')]"] h
  have 3: "status (resp_of (PUT_post demo_driver 99 actor_B ''999'' (Some (Obj [(''title'', Str ''Rain'')])) demo_store)) = 400 \<and>
   issued (PUT_post demo_driver 99 actor_B ''999'' (Some (Obj [(''title'', Str ''Rain'')])) demo_store) = [] \<and>
   status (resp_of (PUT_comment demo_driver 99 actor_B ''999'' (Some (Obj [(''title'', Str ''Rain'')])) demo_store)) = 400 \<and>
   issued (PUT_comment demo_driver 99 actor_B ''999'' (Some (Obj [(''title'', Str ''Rain'')])) demo_store) = []"
    by blast
  from h a 1 2 3 show ?thesis by blast
qed

section \<open>Listing the posts\<close>

text \<open>
  C6. The listing handler takes no user. On a store that satisfies its schema it answers 200
  with one row for each post, ordered by \<open>created_at\<close> descending; each row carries the
  columns of its post, the author built from the user the post belongs to, and a comment
  sequence that is never null, has one entry for each comment of the post, and is empty when
  the post has no comment.
\<close>

theorem listing_posts:
  assumes "wf_store s"
  shows "\<exists>rows.
      resp_of (GET_posts s) = \<lparr>status = 200, body = Listing rows\<rparr> \<and>
      db_of (GET_posts s) = s \<and>
      mset (map lp_id rows) = mset (map p_id (forum_posts s)) \<and>
      sorted_wrt (\<lambda>a b. b \<le> a) (map lp_created_at rows) \<and>
      (\<forall>r \<in> set rows. \<exists>p \<in> set (forum_posts s). \<exists>u \<in> set (users s).
         lp_id r = p_id p \<and> lp_title r = p_title p \<and> lp_content r = p_content p \<and>
         lp_created_at r = p_created_at p \<and> lp_user_id r = p_user_id p \<and>
         u_id u = p_user_id p \<and> lp_author r = \<lparr>a_id = u_id u, a_name = u_name u\<rparr> \<and>
         (\<exists>cs. lp_comments r = Some cs \<and>
               map lc_id cs = map c_id (comments_of s (p_id p)) \<and>
               (comments_of s (p_id p) = [] \<longrightarrow> cs = [])))"
proof -
  let ?joined = "concat (map (\<lambda>p. map (listed s p) (filter (\<lambda>u. u_id u = p_user_id p) (users s)))
                     (forum_posts s))"
  let ?rows = "order_by_created_at_desc ?joined"
  from assms have keys: "distinct (map u_id (users s))"
    and fk_post: "list_all (\<lambda>p. p_user_id p \<in> set (map u_id (users s))) (forum_posts s)"
    and fk_comment: "list_all (\<lambda>c. c_user_id c \<in> set (map u_id (users s))) (comments s)"
    by (simp_all add: wf_store_def)
  have "mset (map lp_id ?rows) = mset (map lp_id ?joined)"
    by (simp add: order_by_created_at_desc_def)
  also have "\<dots> = mset (map p_id (forum_posts s))"
    using joined_ids [OF keys fk_post, of s] by simp
  finally have every: "mset (map lp_id ?rows) = mset (map p_id (forum_posts s))" .
  have each: "\<exists>p \<in> set (forum_posts s). \<exists>u \<in> set (users s).
         lp_id r = p_id p \<and> lp_title r = p_title p \<and> lp_content r = p_content p \<and>
         lp_created_at r = p_created_at p \<and> lp_user_id r = p_user_id p \<and>
         u_id u = p_user_id p \<and> lp_author r = \<lparr>a_id = u_id u, a_name = u_name u\<rparr> \<and>
         (\<exists>cs. lp_comments r = Some cs \<and>
               map lc_id cs = map c_id (comments_of s (p_id p)) \<and>
               (comments_of s (p_id p) = [] \<longrightarrow> cs = []))" if "r \<in> set ?rows" for r
  proof -
    from that have "r \<in> set ?joined"
      by (simp add: order_by_created_at_desc_def)
    then obtain p u where p: "p \<in> set (forum_posts s)" and u: "u \<in> set (users s)"
      and pu: "u_id u = p_user_id p" and r: "r = listed s p u"
      by (rule joined_row)
    let ?cs = "concat (map (\<lambda>c. map (build_comment c)
                           (left_join (filter (\<lambda>cu. u_id cu = c_user_id c) (users s))))
                       (comments_of s (p_id p)))"
    have "list_all (\<lambda>c. c_user_id c \<in> set (map u_id (users s))) (comments_of s (p_id p))"
      using fk_comment by (simp add: comments_of_def list_all_iff)
    from comment_entries [OF keys this]
    have ids: "map lc_id ?cs = map c_id (comments_of s (p_id p))" .
    have "lp_comments r = Some ?cs"
      by (simp add: r listed_def agg_comments_group)
    moreover have "comments_of s (p_id p) = [] \<longrightarrow> ?cs = []"
      by simp
    ultimately have agg: "\<exists>cs. lp_comments r = Some cs \<and>
               map lc_id cs = map c_id (comments_of s (p_id p)) \<and>
               (comments_of s (p_id p) = [] \<longrightarrow> cs = [])"
      using ids by blast
    have cols: "lp_id r = p_id p \<and> lp_title r = p_title p \<and> lp_content r = p_content p \<and>
         lp_created_at r = p_created_at p \<and> lp_user_id r = p_user_id p \<and>
         u_id u = p_user_id p \<and> lp_author r = \<lparr>a_id = u_id u, a_name = u_name u\<rparr>"
      using pu by (simp add: r listed_def build_author_def)
    from p u cols agg show ?thesis
      by blast
  qed
  show ?thesis
  proof (intro exI conjI ballI)
    show "resp_of (GET_posts s) = \<lparr>status = 200, body = Listing ?rows\<rparr>"
      by (simp add: GET_posts_eq resp_of_def json_response_def)
    show "db_of (GET_posts s) = s"
      by (simp add: GET_posts_eq db_of_def)
    show "mset (map lp_id ?rows) = mset (map p_id (forum_posts s))"
      by (fact every)
    show "sorted_wrt (\<lambda>a b. b \<le> a) (map lp_created_at ?rows)"
      by (rule created_desc)
  next
    fix r assume "r \<in> set ?rows"
    then show "\<exists>p \<in> set (forum_posts s). \<exists>u \<in> set (users s).
         lp_id r = p_id p \<and> lp_title r = p_title p \<and> lp_content r = p_content p \<and>
         lp_created_at r = p_created_at p \<and> lp_user_id r = p_user_id p \<and>
         u_id u = p_user_id p \<and> lp_author r = \<lparr>a_id = u_id u, a_name = u_name u\<rparr> \<and>
         (\<exists>cs. lp_comments r = Some cs \<and>
               map lc_id cs = map c_id (comments_of s (p_id p)) \<and>
               (comments_of s (p_id p) = [] \<longrightarrow> cs = []))"
      by (rule each)
  qed
qed

theorem listing_posts_witness:
  "wf_store demo_store \<and>
   (\<exists>rows.
      resp_of (GET_posts demo_store) = \<lparr>status = 200, body = Listing rows\<rparr> \<and>
      mset (map lp_id rows) = mset (map p_id (forum_posts demo_store)) \<and>
      sorted_wrt (\<lambda>a b. b \<le> a) (map lp_created_at rows))"
proof -
  have wf: "wf_store demo_store"
    by (simp add: wf_store_def demo_defs)
  from listing_posts [OF wf] show ?thesis
    using wf by blast
qed

section \<open>Creating a comment\<close>

text \<open>
  C7. A create-comment request with a non-empty content on a path id that denotes no post
  gets status 500: the insert is sent, the store rejects it, the handler catches the
  exception, and the three tables are as they were.
\<close>

theorem comment_on_missing_post:
  assumes "request = Some b" and "b \<noteq> Null" and "b \<noteq> Undefined"
    and "\<not> falsy (get_prop b ''content'')"
    and "\<forall>k. key_of drv ident = Some k \<longrightarrow> post_at s k = None"
  shows "resp_of (POST_comment drv now user ident request s) =
           \<lparr>status = 500, body = Error ''Failed to create comment''\<rparr> \<and>
         issued (POST_comment drv now user ident request s) =
           [InsertComment ident (actor_id user) (get_prop b ''content'') now] \<and>
         comments (db_of (POST_comment drv now user ident request s)) = comments s \<and>
         forum_posts (db_of (POST_comment drv now user ident request s)) = forum_posts s \<and>
         users (db_of (POST_comment drv now user ident request s)) = users s"
proof -
  from assms(5) have "\<forall>k. key_of drv ident = Some k \<longrightarrow> k \<notin> set (map p_id (forum_posts s))"
    by (simp add: post_at_None_iff)
  from POST_comment_rejected [OF assms(2,3,4) this, of now user] assms(1)
  show ?thesis
    by (simp add: resp_of_def db_of_def issued_def json_response_def)
qed

theorem comment_on_missing_post_witness:
  "valid_comment_body \<noteq> Null \<and> valid_comment_body \<noteq> Undefined \<and>
   \<not> falsy (get_prop valid_comment_body ''content'') \<and>
   key_of demo_driver ''999'' = Some 999 \<and> post_at demo_store 999 = None \<and>
   resp_of (POST_comment demo_driver 99 actor_A ''999'' (Some valid_comment_body) demo_store) =
     \<lparr>status = 500, body = Error ''Failed to create comment''\<rparr> \<and>
   comments (db_of (POST_comment demo_driver 99 actor_A ''999'' (Some valid_comment_body) demo_store))
     = comments demo_store"
proof -
  have b: "valid_comment_body \<noteq> Null" "valid_comment_body \<noteq> Undefined"
    "\<not> falsy (get_prop valid_comment_body ''content'')"
    by (simp_all add: demo_defs)
  have k: "key_of demo_driver ''999'' = Some 999" and p: "post_at demo_store 999 = None"
    by (simp_all add: demo_defs)
  from k p have "\<forall>k. key_of demo_driver ''999'' = Some k \<longrightarrow> post_at demo_store k = None"
    by simp
  from comment_on_missing_post [OF refl b this, of 99 actor_A]
  show ?thesis
    using b k p by blast
qed

section \<open>Updating a post\<close>

text \<open>
  C8. When PUT on a post answers 200, the rows of \<open>forum_posts\<close> with the target id have the
  new title, content and \<open>updated_at\<close> and are otherwise as before: the columns \<open>id\<close>,
  \<open>user_id\<close> and \<open>created_at\<close> of every row, the rows with another id, the comments, the
  users and the id generators are unchanged; the response is the target row after the update.
\<close>

theorem put_post_frame:
  assumes "status (resp_of (PUT_post drv now user ident request s)) = 200"
  shows "\<exists>k b p s' t c.
      s' = db_of (PUT_post drv now user ident request s) \<and>
      key_of drv ident = Some k \<and> request = Some b \<and> post_at s k = Some p \<and>
      text_of drv (get_prop b ''title'') = Some t \<and>
      text_of drv (get_prop b ''content'') = Some c \<and>
      forum_posts s' =
        map (\<lambda>q. if p_id q = k
                 then q\<lparr>p_title := t, p_content := c, p_updated_at := Some now\<rparr>
                 else q) (forum_posts s) \<and>
      map p_id (forum_posts s') = map p_id (forum_posts s) \<and>
      map p_user_id (forum_posts s') = map p_user_id (forum_posts s) \<and>
      map p_created_at (forum_posts s') = map p_created_at (forum_posts s) \<and>
      filter (\<lambda>q. p_id q \<noteq> k) (forum_posts s') = filter (\<lambda>q. p_id q \<noteq> k) (forum_posts s) \<and>
      comments s' = comments s \<and> users s' = users s \<and>
      post_seq s' = post_seq s \<and> comment_seq s' = comment_seq s \<and>
      post_at s' k = Some (p\<lparr>p_title := t, p_content := c, p_updated_at := Some now\<rparr>) \<and>
      resp_of (PUT_post drv now user ident request s) =
        \<lparr>status = 200, body = UpdatedPost k t c (p_created_at p) (Some now)\<rparr>"
proof -
  from assms obtain b k p t c where r: "request = Some b"
    and b: "b \<noteq> Null" "b \<noteq> Undefined"
      "\<not> falsy (get_prop b ''title'')" "\<not> falsy (get_prop b ''content'')"
    and key: "key_of drv ident = Some k" and post: "post_at s k = Some p"
    and auth: "actor_id user = p_user_id p \<or> role user = ''admin''"
    and tc: "text_of drv (get_prop b ''title'') = Some t"
      "text_of drv (get_prop b ''content'') = Some c"
    by (rule PUT_post_200)
  let ?f = "set_post t c now"
  let ?rows = "map (\<lambda>q. if p_id q = k then ?f q else q) (forum_posts s)"
  have out: "PUT_post drv now user ident request s =
      (json_response (returning_post (?f p)) 200, s\<lparr>forum_posts := ?rows\<rparr>,
       [SelectPostOwner ident, UpdatePost (get_prop b ''title'') (get_prop b ''content'') now ident])"
    using PUT_post_accepted [OF key post b(3,4,1,2) auth tc, of now] r by simp
  have keep: "p_id (?f q) = p_id q" "p_user_id (?f q) = p_user_id q"
    "p_created_at (?f q) = p_created_at q" for q
    by (simp_all add: set_post_def)
  have f: "?f q = q\<lparr>p_title := t, p_content := c, p_updated_at := Some now\<rparr>" for q
    by (simp add: set_post_def)
  have 1: "map p_id ?rows = map p_id (forum_posts s)"
    and 2: "map p_user_id ?rows = map p_user_id (forum_posts s)"
    and 3: "map p_created_at ?rows = map p_created_at (forum_posts s)"
    by (rule map_field_updated, rule keep)+
  have 4: "filter (\<lambda>q. p_id q \<noteq> k) ?rows = filter (\<lambda>q. p_id q \<noteq> k) (forum_posts s)"
    by (rule filter_others_updated) (rule keep)
  have 5: "post_at (s\<lparr>forum_posts := ?rows\<rparr>) k = Some (?f p)"
    using post find_updated [of p_id ?f k "forum_posts s", OF keep(1)]
    by (simp add: post_at_def)
  have 6: "json_response (returning_post (?f p)) 200 =
      \<lparr>status = 200, body = UpdatedPost k t c (p_created_at p) (Some now)\<rparr>"
    using post_at_key [OF post]
    by (simp add: json_response_def returning_post_def set_post_def)
  have db: "db_of (PUT_post drv now user ident request s) = s\<lparr>forum_posts := ?rows\<rparr>"
    and resp: "resp_of (PUT_post drv now user ident request s) =
      json_response (returning_post (?f p)) 200"
    by (simp_all add: out db_of_def resp_of_def)
  show ?thesis
  proof (intro exI conjI)
    show "s\<lparr>forum_posts := ?rows\<rparr> = db_of (PUT_post drv now user ident request s)"
      by (simp add: db)
    show "key_of drv ident = Some k" "request = Some b" "post_at s k = Some p"
      "text_of drv (get_prop b ''title'') = Some t"
      "text_of drv (get_prop b ''content'') = Some c"
      by (fact key r post tc)+
    show "forum_posts (s\<lparr>forum_posts := ?rows\<rparr>) =
        map (\<lambda>q. if p_id q = k
                 then q\<lparr>p_title := t, p_content := c, p_updated_at := Some now\<rparr>
                 else q) (forum_posts s)"
      by (simp add: f)
    show "map p_id (forum_posts (s\<lparr>forum_posts := ?rows\<rparr>)) = map p_id (forum_posts s)"
      "map p_user_id (forum_posts (s\<lparr>forum_posts := ?rows\<rparr>)) = map p_user_id (forum_posts s)"
      "map p_created_at (forum_posts (s\<lparr>forum_posts := ?rows\<rparr>)) = map p_created_at (forum_posts s)"
      "filter (\<lambda>q. p_id q \<noteq> k) (forum_posts (s\<lparr>forum_posts := ?rows\<rparr>))
         = filter (\<lambda>q. p_id q \<noteq> k) (forum_posts s)"
      using 1 2 3 4 by simp_all
    show "comments (s\<lparr>forum_posts := ?rows\<rparr>) = comments s"
      "users (s\<lparr>forum_posts := ?rows\<rparr>) = users s"
      "post_seq (s\<lparr>forum_posts := ?rows\<rparr>) = post_seq s"
      "comment_seq (s\<lparr>forum_posts := ?rows\<rparr>) = comment_seq s"
      by simp_all
    show "post_at (s\<lparr>forum_posts := ?rows\<rparr>) k =
        Some (p\<lparr>p_title := t, p_content := c, p_updated_at := Some now\<rparr>)"
      using 5 by (simp add: f)
    show "resp_of (PUT_post drv now user ident request s) =
        \<lparr>status = 200, body = UpdatedPost k t c (p_created_at p) (Some now)\<rparr>"
      using 6 by (simp add: resp)
  qed
qed

theorem put_post_frame_witness:
  "status (resp_of (PUT_post demo_driver 99 actor_admin ''1'' (Some valid_post_body) demo_store)) = 200 \<and>
   (\<exists>k b p s' t c.
      s' = db_of (PUT_post demo_driver 99 actor_admin ''1'' (Some valid_post_body) demo_store) \<and>
      key_of demo_driver ''1'' = Some k \<and> Some valid_post_body = Some b \<and>
      post_at demo_store k = Some p \<and>
      text_of demo_driver (get_prop b ''title'') = Some t \<and>
      text_of demo_driver (get_prop b ''content'') = Some c \<and>
      map p_user_id (forum_posts s') = map p_user_id (forum_posts demo_store) \<and>
      comments s' = comments demo_store \<and>
      resp_of (PUT_post demo_driver 99 actor_admin ''1'' (Some valid_post_body) demo_store) =
        \<lparr>status = 200, body = UpdatedPost k t c (p_created_at p) (Some 99)\<rparr>)"
proof -
  have k: "key_of demo_driver ''1'' = Some 1" and p: "post_at demo_store 1 = Some demo_post"
    and b: "\<not> falsy (get_prop valid_post_body ''title'')"
      "\<not> falsy (get_prop valid_post_body ''content'')"
      "valid_post_body \<noteq> Null" "valid_post_body \<noteq> Undefined"
    and a: "actor_id actor_admin = p_user_id demo_post \<or> role actor_admin = ''admin''"
    and t: "text_of demo_driver (get_prop valid_post_body ''title'') = Some ''Storm''"
      "text_of demo_driver (get_prop valid_post_body ''content'') = Some ''Wind and hail''"
    by (simp_all add: demo_defs)
  from PUT_post_accepted [OF k p b a t, of 99]
  have ok: "status (resp_of (PUT_post demo_driver 99 actor_admin ''1'' (Some valid_post_body) demo_store)) = 200"
    by (simp add: resp_of_def status_json_response)
  from put_post_frame [OF ok] show ?thesis
    using ok by blast
qed

section \<open>The like button\<close>

text \<open>The copy has every field of the original, so it is the same value.\<close>

lemma spread_same: "spread post = post"
  by (simp add: spread_def)

text \<open>
  C9. For every state of the view and every post id, the like handler gives back the state
  it was called in, its post list included, and sends no request.
\<close>

theorem like_is_noop: "handleLikePost postId st = (st, [])"
proof -
  have "map (\<lambda>post. if fp_id post = postId then spread post else post) (posts st) = posts st"
    by (induction "posts st") (simp_all add: spread_same map_idI)
  then show ?thesis
    by (simp add: handleLikePost_def)
qed

end
